theory Spec2Isabelle
  imports Main "HOL-Library.AList"
begin

section \<open>Python strings\<close>

text \<open>
  The scanner works on Python text strings.  A \<^typ>\<open>char\<close> stands for one code point
  below 256; the character classes below are the ones Python's \<^verbatim>\<open>str.isspace\<close>,
  \<^verbatim>\<open>str.lower\<close> and the \<^verbatim>\<open>re\<close> module use on that range.
\<close>

definition isspace :: "char \<Rightarrow> bool" where
  "isspace c = (c \<in> set [CHR 0x09, CHR 0x0A, CHR 0x0B, CHR 0x0C, CHR 0x0D,
                          CHR 0x1C, CHR 0x1D, CHR 0x1E, CHR 0x1F, CHR 0x20,
                          CHR 0x85, CHR 0xA0])"

definition isdigit09 :: "char \<Rightarrow> bool" where
  "isdigit09 c = (let n = (of_char c :: nat) in 48 \<le> n \<and> n \<le> 57)"

definition isword :: "char \<Rightarrow> bool" where
  "isword c = (let n = (of_char c :: nat) in
     (48 \<le> n \<and> n \<le> 57) \<or> (65 \<le> n \<and> n \<le> 90) \<or> (97 \<le> n \<and> n \<le> 122) \<or> n = 95
     \<or> n = 170 \<or> n = 178 \<or> n = 179 \<or> n = 181 \<or> n = 185 \<or> n = 186
     \<or> n = 188 \<or> n = 189 \<or> n = 190
     \<or> (192 \<le> n \<and> n \<le> 214) \<or> (216 \<le> n \<and> n \<le> 246) \<or> 248 \<le> n)"

definition lower_char :: "char \<Rightarrow> char" where
  "lower_char c = (let n = (of_char c :: nat) in
     if (65 \<le> n \<and> n \<le> 90) \<or> (192 \<le> n \<and> n \<le> 222 \<and> n \<noteq> 215)
     then char_of (n + 32) else c)"

definition lower :: "string \<Rightarrow> string" where
  "lower s = map lower_char s"

text \<open>\<^verbatim>\<open>s.split(sep)\<close> with a one-character separator: never returns the empty list.\<close>

fun split_chr :: "char \<Rightarrow> string \<Rightarrow> string list" where
  "split_chr d [] = [[]]"
| "split_chr d (c # cs) =
     (if c = d then [] # split_chr d cs
      else (case split_chr d cs of [] \<Rightarrow> [[c]] | w # ws \<Rightarrow> (c # w) # ws))"

text \<open>\<^verbatim>\<open>s.split()\<close>: the maximal runs of non-whitespace characters.\<close>

fun tokens :: "string \<Rightarrow> string \<Rightarrow> string list" where
  "tokens cur [] = (if cur = [] then [] else [cur])"
| "tokens cur (c # cs) =
     (if isspace c then (if cur = [] then tokens [] cs else cur # tokens [] cs)
      else tokens (cur @ [c]) cs)"

definition split_ws :: "string \<Rightarrow> string list" where
  "split_ws s = tokens [] s"

text \<open>\<^verbatim>\<open>sep.join(ws)\<close>.\<close>

fun join :: "string \<Rightarrow> string list \<Rightarrow> string" where
  "join sep [] = []"
| "join sep [w] = w"
| "join sep (w # ws) = w @ sep @ join sep ws"

text \<open>\<^verbatim>\<open>needle in hay\<close>.\<close>

fun contains :: "string \<Rightarrow> string \<Rightarrow> bool" where
  "contains needle [] = (needle = [])"
| "contains needle (c # cs) =
     (take (length needle) (c # cs) = needle \<or> contains needle cs)"

text \<open>\<^verbatim>\<open>s.replace(c, "")\<close> for a one-character \<^verbatim>\<open>c\<close>.\<close>

definition remove_chr :: "char \<Rightarrow> string \<Rightarrow> string" where
  "remove_chr d s = filter (\<lambda>c. c \<noteq> d) s"

section \<open>Regular expressions\<close>

text \<open>
  The fragment of Python's \<^verbatim>\<open>re\<close> syntax that the scanner's three patterns are written
  in: character classes, literals, greedy and lazy repetition of a class, alternation,
  named groups, an optional group, and the anchors.
\<close>

datatype cclass = Dot | Space | Word | Digit09

fun in_class :: "cclass \<Rightarrow> char \<Rightarrow> bool" where
  "in_class Dot c = (c \<noteq> CHR 0x0A)"
| "in_class Space c = isspace c"
| "in_class Word c = isword c"
| "in_class Digit09 c = isdigit09 c"

datatype regex =
    One cclass
  | Rep cclass nat "nat option" bool
  | Lit string
  | Cat "regex list"
  | Alt "regex list"
  | Group string regex
  | Opt regex
  | Bol
  | Eol

type_synonym captures = "(string \<times> string) list"

text \<open>
  \<open>rmatch r s i caps\<close> lists, in the order in which a backtracking matcher tries them,
  the ways in which \<open>r\<close> can match \<open>s\<close> from position \<open>i\<close>: the end position with the
  groups captured so far.  \<open>Rep c lo hi greedy\<close> repeats a class between \<open>lo\<close> and \<open>hi\<close>
  times, the longest run first when greedy and the shortest first when lazy.
\<close>

fun rmatch :: "regex \<Rightarrow> string \<Rightarrow> nat \<Rightarrow> captures \<Rightarrow> (nat \<times> captures) list" where
  "rmatch (One c) s i caps =
     (if i < length s \<and> in_class c (s ! i) then [(Suc i, caps)] else [])"
| "rmatch (Rep c lo hi greedy) s i caps =
     (let run = length (takeWhile (in_class c) (drop i s));
          top = (case hi of None \<Rightarrow> run | Some h \<Rightarrow> min h run);
          counts = [lo ..< Suc top]
      in map (\<lambda>n. (i + n, caps)) (if greedy then rev counts else counts))"
| "rmatch (Lit w) s i caps =
     (if take (length w) (drop i s) = w then [(i + length w, caps)] else [])"
| "rmatch (Cat []) s i caps = [(i, caps)]"
| "rmatch (Cat (r # rs)) s i caps =
     concat (map (\<lambda>st. rmatch (Cat rs) s (fst st) (snd st)) (rmatch r s i caps))"
| "rmatch (Alt []) s i caps = []"
| "rmatch (Alt (r # rs)) s i caps = rmatch r s i caps @ rmatch (Alt rs) s i caps"
| "rmatch (Group name r) s i caps =
     map (\<lambda>st. (fst st, (name, take (fst st - i) (drop i s)) # snd st)) (rmatch r s i caps)"
| "rmatch (Opt r) s i caps = rmatch r s i caps @ [(i, caps)]"
| "rmatch Bol s i caps = (if i = 0 then [(i, caps)] else [])"
| "rmatch Eol s i caps =
     (if i = length s \<or> (Suc i = length s \<and> s ! i = CHR 0x0A) then [(i, caps)] else [])"

text \<open>\<^verbatim>\<open>p.match(line)\<close>: the first way to match from position 0, or no match.\<close>

definition re_match :: "regex \<Rightarrow> string \<Rightarrow> captures option" where
  "re_match p line = (case rmatch p line 0 [] of [] \<Rightarrow> None | st # _ \<Rightarrow> Some (snd st))"

section \<open>Python values and dictionaries\<close>

datatype pyval = Str string | Num int | NoneV

text \<open>\<^verbatim>\<open>m[name]\<close>: the text a group captured, \<^verbatim>\<open>None\<close> for a group that took no part
  in the match.\<close>

definition group :: "captures \<Rightarrow> string \<Rightarrow> pyval" where
  "group m name = (case map_of m name of None \<Rightarrow> NoneV | Some v \<Rightarrow> Str v)"

text \<open>Truth value of a Python value, and \<^verbatim>\<open>a or b\<close>.\<close>

fun truthy :: "pyval \<Rightarrow> bool" where
  "truthy (Str s) = (s \<noteq> [])"
| "truthy (Num n) = (n \<noteq> 0)"
| "truthy NoneV = False"

definition py_or :: "pyval \<Rightarrow> pyval \<Rightarrow> pyval" where
  "py_or a b = (if truthy a then a else b)"

text \<open>\<^verbatim>\<open>str(v)\<close>, as an f-string formats a value.\<close>

function str_nat :: "nat \<Rightarrow> string" where
  "str_nat n = (if n < 10 then [char_of (48 + n)]
                else str_nat (n div 10) @ [char_of (48 + n mod 10)])"
  by pat_completeness auto
termination
  by (relation "measure id") auto

fun fmt :: "pyval \<Rightarrow> string" where
  "fmt (Str s) = s"
| "fmt (Num n) = (if n < 0 then CHR ''-'' # str_nat (nat (- n)) else str_nat (nat n))"
| "fmt NoneV = ''None''"

text \<open>
  A dictionary is an association list in insertion order with distinct keys.
  \<open>dict_set k v d\<close> is \<^verbatim>\<open>d[k] = v\<close> and \<open>dict_ior d e\<close> is \<^verbatim>\<open>d |= e\<close>.
\<close>

definition dict_set :: "'k \<Rightarrow> 'v \<Rightarrow> ('k \<times> 'v) list \<Rightarrow> ('k \<times> 'v) list" where
  "dict_set k v d = AList.update k v d"

definition dict_ior :: "('k \<times> 'v) list \<Rightarrow> ('k \<times> 'v) list \<Rightarrow> ('k \<times> 'v) list" where
  "dict_ior d e = fold (\<lambda>kv. dict_set (fst kv) (snd kv)) e d"

text \<open>The record of one service, and the map from service names to records.\<close>

type_synonym service = "(string \<times> pyval) list"
type_synonym registry = "(pyval \<times> service) list"

section \<open>The host\<close>

text \<open>
  The module's collaborators: \<^verbatim>\<open>module.get_bin_path(name, opt_dirs)\<close>,
  \<^verbatim>\<open>module.run_command(cmd)\<close> returning \<^verbatim>\<open>(rc, stdout, stderr)\<close>, and the lines of
  \<^verbatim>\<open>/proc/1/comm\<close> (\<open>None\<close> when opening the file raises \<^verbatim>\<open>IOError\<close>).
\<close>

record host =
  get_bin_path :: "string \<Rightarrow> string list \<Rightarrow> string option"
  run_command :: "string \<Rightarrow> int \<times> string \<times> string"
  proc1_comm :: "string list option"

text \<open>The call sites of \<^verbatim>\<open>run_command\<close>, with the command line each one builds.\<close>

datatype call =
    StatusAll string
  | InitctlList string
  | ChkList string
  | ChkListAll string
  | ChkListFlag string
  | SvcStatus string pyval
  | UnitFiles string

definition nl :: char where "nl = CHR 0x0A"
definition dquote :: char where "dquote = CHR 0x22"
definition bslash :: char where "bslash = CHR 0x5C"

fun cmd_of :: "call \<Rightarrow> string" where
  "cmd_of (StatusAll service_path) =
     service_path @ '' --status-all 2>&1 | grep -E '' @ [dquote, bslash] @ ''[ ('' @ [bslash]
       @ ''+|'' @ [bslash] @ ''-) '' @ [bslash] @ '']'' @ [dquote]"
| "cmd_of (InitctlList initctl_path) = initctl_path @ '' list''"
| "cmd_of (ChkList chkconfig_path) = chkconfig_path"
| "cmd_of (ChkListAll chkconfig_path) = chkconfig_path @ '' -l --allservices''"
| "cmd_of (ChkListFlag chkconfig_path) = chkconfig_path @ '' --list''"
| "cmd_of (SvcStatus service_path service_name) =
     service_path @ '' '' @ fmt service_name @ '' status''"
| "cmd_of (UnitFiles systemctl_path) =
     systemctl_path @ '' list-unit-files --type=service | tail -n +2 | head -n -2''"

text \<open>
  The state of one \<^verbatim>\<open>gather_services\<close> run: the local \<^verbatim>\<open>services\<close> dictionary, the
  object's \<^verbatim>\<open>incomplete_warning\<close> attribute, and the commands run so far.
\<close>

record scan =
  services :: registry
  incomplete_warning :: bool
  calls :: "call list"

definition scan0 :: scan where
  "scan0 = \<lparr>services = [], incomplete_warning = False, calls = []\<rparr>"

definition log_call :: "call \<Rightarrow> scan \<Rightarrow> scan" where
  "log_call c st = st\<lparr>calls := calls st @ [c]\<rparr>"

text \<open>What a scanner hands to \<^verbatim>\<open>main\<close>: the returned dictionary (or \<^verbatim>\<open>None\<close>), the
  object's flag, and the commands it ran.\<close>

record outcome =
  returned :: "registry option"
  incomplete :: bool
  trace :: "call list"

definition unavailable :: "scan \<Rightarrow> outcome" where
  "unavailable st =
     \<lparr>returned = None, incomplete = incomplete_warning st, trace = calls st\<rparr>"

definition finished :: "scan \<Rightarrow> outcome" where
  "finished st =
     \<lparr>returned = Some (services st), incomplete = incomplete_warning st, trace = calls st\<rparr>"

section \<open>ServiceScanService\<close>

subsection \<open>sysvinit\<close>

definition sysv_line :: "string \<Rightarrow> scan \<Rightarrow> scan" where
  "sysv_line line st =
     (let line_data = split_ws line in
      if length line_data < 4 then st
      else
        let service_name = join '' '' (drop 3 line_data);
            service_state = (if line_data ! 1 = ''+'' then ''running'' else ''stopped'')
        in st\<lparr>services :=
                dict_set (Str service_name)
                  [(''name'', Str service_name), (''state'', Str service_state),
                   (''source'', Str ''sysv'')]
                  (services st)\<rparr>)"

definition sysv_scan :: "host \<Rightarrow> string \<Rightarrow> scan \<Rightarrow> scan" where
  "sysv_scan h service_path st =
     (let c = StatusAll service_path;
          (rc, stdout, stderr) = run_command h (cmd_of c)
      in fold sysv_line (split_chr nl stdout) (log_call c st))"

subsection \<open>Upstart\<close>

definition upstart_re :: regex where
  "upstart_re =
     Cat [Bol, Rep Space 0 (Some 1) True,
          Group ''name'' (Rep Dot 0 None True),
          One Space,
          Group ''goal'' (Rep Word 1 None True),
          Lit ''/'',
          Group ''state'' (Rep Word 1 None True),
          Opt (Cat [Lit '','', One Space, Lit ''process'', One Space,
                    Group ''pid'' (Rep Digit09 1 None True)]),
          Rep Space 0 None True, Eol]"

definition upstart_line :: "string \<Rightarrow> scan \<Rightarrow> scan" where
  "upstart_line line st =
     (case re_match upstart_re line of
        None \<Rightarrow> st
      | Some m \<Rightarrow>
          let service_name = group m ''name'';
              service_goal = group m ''goal'';
              service_state = group m ''state'';
              pid = py_or (group m ''pid'') NoneV;
              payload = [(''name'', service_name), (''state'', service_state),
                         (''goal'', service_goal), (''source'', Str ''upstart'')]
          in st\<lparr>services := dict_set service_name payload (services st)\<rparr>)"

definition upstart_scan :: "host \<Rightarrow> string \<Rightarrow> scan \<Rightarrow> scan" where
  "upstart_scan h initctl_path st =
     (let c = InitctlList initctl_path;
          (rc, stdout, stderr) = run_command h (cmd_of c);
          real_stdout = remove_chr (CHR 0x0D) stdout
      in fold upstart_line (split_chr nl real_stdout) (log_call c st))"

subsection \<open>chkconfig\<close>

definition on_off :: regex where
  "on_off = Alt [Lit ''on'', Lit ''off'']"

definition runlevel :: "string \<Rightarrow> regex list" where
  "runlevel name = [Rep Space 1 None True, One Digit09, Lit '':'', Group name on_off]"

definition chkconfig_re :: regex where
  "chkconfig_re =
     Cat (Group ''service'' (Rep Dot 0 None False)
          # runlevel ''rl0'' @ runlevel ''rl1'' @ runlevel ''rl2'' @ runlevel ''rl3''
          @ runlevel ''rl4'' @ runlevel ''rl5'' @ runlevel ''rl6'')"

definition chkconfig_simple_re :: regex where
  "chkconfig_simple_re =
     Cat [Group ''service'' (Rep Dot 0 None False), Rep Space 1 None True,
          Group ''rl0'' on_off]"

text \<open>The loop that sets \<^verbatim>\<open>match_any\<close>.\<close>

definition match_any_line :: "regex \<Rightarrow> string list \<Rightarrow> bool" where
  "match_any_line p lines =
     fold (\<lambda>line match_any. if re_match p line \<noteq> None then True else match_any) lines False"

text \<open>Lines 88 to 113: the listing, run again with other flags where its output does not fit
  the pattern.  Returns the \<^verbatim>\<open>stdout\<close> that the final loop parses.\<close>

definition chkconfig_listing :: "host \<Rightarrow> string \<Rightarrow> scan \<Rightarrow> string \<times> scan" where
  "chkconfig_listing h chkconfig_path st =
     (let (rc, stdout, stderr) = run_command h (cmd_of (ChkList chkconfig_path));
          st1 = log_call (ChkList chkconfig_path) st
      in if \<not> match_any_line chkconfig_re (split_chr nl stdout) then
           if match_any_line chkconfig_simple_re (split_chr nl stdout) then
             (let (rc2, stdout2, stderr2) = run_command h (cmd_of (ChkListAll chkconfig_path))
              in (stdout2, log_call (ChkListAll chkconfig_path) st1))
           else if contains ''--list'' stderr then
             (let (rc2, stdout2, stderr2) = run_command h (cmd_of (ChkListFlag chkconfig_path))
              in (stdout2, log_call (ChkListFlag chkconfig_path) st1))
           else (stdout, st1)
         else (stdout, st1))"

text \<open>Lines 133 and 134.\<close>

definition store_sysv :: "pyval \<Rightarrow> pyval \<Rightarrow> scan \<Rightarrow> scan" where
  "store_sysv service_name service_state st =
     (let service_data = [(''name'', service_name), (''state'', service_state),
                          (''source'', Str ''sysv'')]
      in st\<lparr>services := dict_set service_name service_data (services st)\<rparr>)"

definition chkconfig_line :: "host \<Rightarrow> string \<Rightarrow> string \<Rightarrow> scan \<Rightarrow> scan" where
  "chkconfig_line h service_path line st =
     (case re_match chkconfig_re line of
        None \<Rightarrow> st
      | Some m \<Rightarrow>
          let service_name = group m ''service'';
              service_state = Str ''stopped''
          in if group m ''rl3'' = Str ''on'' then
               (let c = SvcStatus service_path service_name;
                    (rc, stdout, stderr) = run_command h (cmd_of c);
                    st1 = log_call c st;
                    service_state = Num rc
                in if service_state = Num 0 then store_sysv service_name (Str ''running'') st1
                   else if contains ''root'' stderr \<or> contains ''permission'' (lower stderr)
                           \<or> contains ''not in sudoers'' (lower stderr)
                   then st1\<lparr>incomplete_warning := True\<rparr>
                   else store_sysv service_name (Str ''stopped'') st1)
             else store_sysv service_name service_state st)"

definition chkconfig_scan :: "host \<Rightarrow> string \<Rightarrow> string \<Rightarrow> scan \<Rightarrow> scan" where
  "chkconfig_scan h service_path chkconfig_path st =
     (let (stdout, st1) = chkconfig_listing h chkconfig_path st
      in fold (chkconfig_line h service_path) (split_chr nl stdout) st1)"

subsection \<open>gather_services\<close>

definition service_gather :: "host \<Rightarrow> outcome" where
  "service_gather h =
     (case get_bin_path h ''service'' [] of
        None \<Rightarrow> unavailable scan0
      | Some service_path \<Rightarrow>
          let initctl_path = get_bin_path h ''initctl'' [];
              chkconfig_path = get_bin_path h ''chkconfig'' [];
              st = (if chkconfig_path = None then sysv_scan h service_path scan0 else scan0)
          in (case (initctl_path, chkconfig_path) of
                (Some ip, None) \<Rightarrow> finished (upstart_scan h ip st)
              | (_, Some cp) \<Rightarrow> finished (chkconfig_scan h service_path cp st)
              | (None, None) \<Rightarrow> finished st))"

section \<open>SystemctlScanService\<close>

definition systemd_enabled :: "host \<Rightarrow> bool" where
  "systemd_enabled h =
     (case proc1_comm h of None \<Rightarrow> False | Some f \<Rightarrow> list_ex (contains ''systemd'') f)"

definition systemd_line :: "string \<Rightarrow> scan \<Rightarrow> scan" where
  "systemd_line line st =
     (let line_data = split_ws line in
      if length line_data \<noteq> 2 then st
      else
        let state_val = (if line_data ! 1 = ''enabled'' then ''running'' else ''stopped'')
        in st\<lparr>services :=
                dict_set (Str (line_data ! 0))
                  [(''name'', Str (line_data ! 0)), (''state'', Str state_val),
                   (''source'', Str ''systemd'')]
                  (services st)\<rparr>)"

definition systemctl_gather :: "host \<Rightarrow> outcome" where
  "systemctl_gather h =
     (if \<not> systemd_enabled h then unavailable scan0
      else
        (case get_bin_path h ''systemctl'' [''/usr/bin'', ''/usr/local/bin''] of
           None \<Rightarrow> unavailable scan0
         | Some systemctl_path \<Rightarrow>
             let c = UnitFiles systemctl_path;
                 (rc, stdout, stderr) = run_command h (cmd_of c)
             in finished (fold systemd_line (split_chr nl stdout) (log_call c scan0))))"

section \<open>main\<close>

datatype service_module = ServiceScanService | SystemctlScanService

fun gather_services :: "service_module \<Rightarrow> host \<Rightarrow> outcome" where
  "gather_services ServiceScanService h = service_gather h"
| "gather_services SystemctlScanService h = systemctl_gather h"

text \<open>The dictionary passed to \<^verbatim>\<open>exit_json\<close>: either \<^verbatim>\<open>skipped\<close> with a message, or the
  facts with an optional message.\<close>

datatype report = Skipped string | Facts registry "string option"

definition main_step :: "host \<Rightarrow> service_module \<Rightarrow> registry \<times> bool \<Rightarrow> registry \<times> bool" where
  "main_step h svc_module acc =
     (let svcmod = gather_services svc_module h
      in case returned svcmod of
           None \<Rightarrow> acc
         | Some svc \<Rightarrow>
             (dict_ior (fst acc) svc, (if incomplete svcmod then True else snd acc)))"

definition main :: "host \<Rightarrow> report" where
  "main h =
     (let (all_services, warn) =
            fold (main_step h) [ServiceScanService, SystemctlScanService] ([], False)
      in if all_services = [] then
           Skipped ''Failed to find any services. Sometimes this is due to insufficient privileges.''
         else
           Facts all_services
             (if warn then
                Some ''WARNING: Could not find status for all services. Sometimes this is due to insufficient privileges.''
              else None))"

text \<open>What a scanner adds to \<^verbatim>\<open>all_services\<close>: nothing when it returned \<^verbatim>\<open>None\<close>.\<close>

definition contribution :: "outcome \<Rightarrow> registry" where
  "contribution r = (case returned r of None \<Rightarrow> [] | Some svc \<Rightarrow> svc)"

section \<open>Shapes of stored records\<close>

text \<open>A loop whose body either leaves the dictionary alone or stores one record that
  satisfies \<open>P\<close> keeps "every record satisfies \<open>P\<close>" and the keys distinct.\<close>

definition stores :: "(pyval \<times> service \<Rightarrow> bool) \<Rightarrow> scan \<Rightarrow> scan \<Rightarrow> bool" where
  "stores P st st' \<longleftrightarrow>
     services st' = services st
     \<or> (\<exists>k v. P (k, v) \<and> services st' = dict_set k v (services st))"

definition sysv_record :: "pyval \<times> service \<Rightarrow> bool" where
  "sysv_record kv \<longleftrightarrow>
     (\<exists>s. s \<in> {''running'', ''stopped''} \<and>
          snd kv = [(''name'', fst kv), (''state'', Str s), (''source'', Str ''sysv'')])"

definition upstart_record :: "pyval \<times> service \<Rightarrow> bool" where
  "upstart_record kv \<longleftrightarrow>
     (\<exists>s g. snd kv = [(''name'', fst kv), (''state'', s), (''goal'', g),
                      (''source'', Str ''upstart'')])"

definition systemd_record :: "pyval \<times> service \<Rightarrow> bool" where
  "systemd_record kv \<longleftrightarrow>
     (\<exists>s. s \<in> {''running'', ''stopped''} \<and>
          snd kv = [(''name'', fst kv), (''state'', Str s), (''source'', Str ''systemd'')])"

text \<open>The records the scanners store, of any of the three shapes.\<close>

definition scanned_record :: "pyval \<times> service \<Rightarrow> bool" where
  "scanned_record kv \<longleftrightarrow> sysv_record kv \<or> upstart_record kv \<or> systemd_record kv"

section \<open>Traces\<close>

text \<open>The status probes of the chkconfig loop (line 120), run through \<open>service_path\<close>.\<close>

fun is_probe :: "string \<Rightarrow> call \<Rightarrow> bool" where
  "is_probe sp (SvcStatus p n) = (p = sp)"
| "is_probe sp _ = False"

section \<open>Properties of a registry\<close>

text \<open>Every record carries its key as \<^verbatim>\<open>name\<close> and one of the three sources.\<close>

definition coherent :: "registry \<Rightarrow> bool" where
  "coherent d \<longleftrightarrow>
     (\<forall>(k, r) \<in> set d.
        map_of r ''name'' = Some k
        \<and> map_of r ''source''
            \<in> {Some (Str ''sysv''), Some (Str ''upstart''), Some (Str ''systemd'')})"

text \<open>Every record's \<^verbatim>\<open>state\<close> is the string \<^verbatim>\<open>running\<close> or \<^verbatim>\<open>stopped\<close>.\<close>

definition running_or_stopped :: "registry \<Rightarrow> bool" where
  "running_or_stopped d \<longleftrightarrow>
     (\<forall>(k, r) \<in> set d.
        map_of r ''state'' = Some (Str ''running'') \<or> map_of r ''state'' = Some (Str ''stopped''))"

section \<open>Example hosts\<close>

text \<open>A host with \<^verbatim>\<open>service\<close> and systemd, where both scanners report \<^verbatim>\<open>ssh\<close>.\<close>

definition host_sysv_systemd :: host where
  "host_sysv_systemd =
     \<lparr>get_bin_path = (\<lambda>name dirs.
          if name = ''service'' then Some ''/sbin/service''
          else if name = ''systemctl'' then Some ''/bin/systemctl'' else None),
      run_command = (\<lambda>cmd.
          if cmd = cmd_of (StatusAll ''/sbin/service'') then (0, '' [ + ]  ssh'', [])
          else if cmd = cmd_of (UnitFiles ''/bin/systemctl'') then (0, ''ssh disabled'', [])
          else (127, [], ''not found'')),
      proc1_comm = Some [''systemd'' @ [nl]]\<rparr>"

text \<open>A host with nothing: no binaries, and \<^verbatim>\<open>/proc/1/comm\<close> cannot be opened.\<close>

definition host_bare :: host where
  "host_bare =
     \<lparr>get_bin_path = (\<lambda>name dirs. None),
      run_command = (\<lambda>cmd. (127, [], ''not found'')),
      proc1_comm = None\<rparr>"

text \<open>An Upstart host: \<^verbatim>\<open>service\<close> and \<^verbatim>\<open>initctl\<close>, no \<^verbatim>\<open>chkconfig\<close>, no systemd.\<close>

definition host_upstart :: host where
  "host_upstart =
     \<lparr>get_bin_path = (\<lambda>name dirs.
          if name = ''service'' then Some ''/sbin/service''
          else if name = ''initctl'' then Some ''/sbin/initctl'' else None),
      run_command = (\<lambda>cmd.
          if cmd = cmd_of (StatusAll ''/sbin/service'') then (0, '' [ + ]  cron'', [])
          else if cmd = cmd_of (InitctlList ''/sbin/initctl'')
            then (0, ''ssh start/running, process 1234'', [])
          else (127, [], ''not found'')),
      proc1_comm = Some [''init'' @ [nl]]\<rparr>"

text \<open>The same host without the \<^verbatim>\<open>service\<close> binary.\<close>

definition host_initctl_only :: host where
  "host_initctl_only =
     host_upstart\<lparr>get_bin_path := (\<lambda>name dirs.
          if name = ''initctl'' then Some ''/sbin/initctl'' else None)\<rparr>"

text \<open>
  A chkconfig host (with \<^verbatim>\<open>initctl\<close> present as well): \<^verbatim>\<open>sshd\<close> runs, the status of
  \<^verbatim>\<open>ntpd\<close> cannot be read without privileges, \<^verbatim>\<open>cups\<close> is off in runlevel 3.
\<close>

definition chkconfig_out :: string where
  "chkconfig_out =
     ''sshd 0:off 1:off 2:on 3:on 4:on 5:on 6:off'' @ [nl] @
     ''ntpd 0:off 1:off 2:on 3:on 4:on 5:on 6:off'' @ [nl] @
     ''cups 0:off 1:off 2:off 3:off 4:off 5:off 6:off''"

definition host_chkconfig :: host where
  "host_chkconfig =
     \<lparr>get_bin_path = (\<lambda>name dirs.
          if name = ''service'' then Some ''/sbin/service''
          else if name = ''chkconfig'' then Some ''/sbin/chkconfig''
          else if name = ''initctl'' then Some ''/sbin/initctl'' else None),
      run_command = (\<lambda>cmd.
          if cmd = cmd_of (ChkList ''/sbin/chkconfig'') then (0, chkconfig_out, [])
          else if cmd = cmd_of (SvcStatus ''/sbin/service'' (Str ''sshd''))
            then (0, ''sshd is running'', [])
          else if cmd = cmd_of (SvcStatus ''/sbin/service'' (Str ''ntpd''))
            then (1, [], ''Sorry, user scan is Not in sudoers'')
          else (127, [], ''not found'')),
      proc1_comm = Some [''init'' @ [nl]]\<rparr>"

text \<open>The same host under systemd, whose listing has a unit called \<^verbatim>\<open>ntpd\<close>.\<close>

definition host_chkconfig_systemd :: host where
  "host_chkconfig_systemd =
     \<lparr>get_bin_path = (\<lambda>name dirs.
          if name = ''systemctl'' then Some ''/bin/systemctl''
          else get_bin_path host_chkconfig name dirs),
      run_command = (\<lambda>cmd.
          if cmd = cmd_of (UnitFiles ''/bin/systemctl'') then (0, ''ntpd enabled'', [])
          else run_command host_chkconfig cmd),
      proc1_comm = Some [''systemd'' @ [nl]]\<rparr>"

text \<open>A host whose plain \<^verbatim>\<open>chkconfig\<close> prints two columns, and the seven runlevels only
  with \<^verbatim>\<open>-l --allservices\<close>.\<close>

definition host_two_column :: host where
  "host_two_column =
     \<lparr>get_bin_path = (\<lambda>name dirs.
          if name = ''service'' then Some ''/sbin/service''
          else if name = ''chkconfig'' then Some ''/sbin/chkconfig'' else None),
      run_command = (\<lambda>cmd.
          if cmd = cmd_of (ChkList ''/sbin/chkconfig'') then (0, ''cups  off'', [])
          else if cmd = cmd_of (ChkListAll ''/sbin/chkconfig'')
            then (0, ''cups 0:off 1:off 2:off 3:off 4:off 5:off 6:off'', [])
          else (127, [], ''not found'')),
      proc1_comm = None\<rparr>"

text \<open>A host whose plain \<^verbatim>\<open>chkconfig\<close> prints its usage on \<^verbatim>\<open>stderr\<close>.\<close>

definition host_needs_list :: host where
  "host_needs_list =
     \<lparr>get_bin_path = (\<lambda>name dirs.
          if name = ''service'' then Some ''/sbin/service''
          else if name = ''chkconfig'' then Some ''/sbin/chkconfig'' else None),
      run_command = (\<lambda>cmd.
          if cmd = cmd_of (ChkList ''/sbin/chkconfig'')
            then (2, [], ''usage:   chkconfig --list [name]'')
          else if cmd = cmd_of (ChkListFlag ''/sbin/chkconfig'')
            then (0, ''cups 0:off 1:off 2:off 3:off 4:off 5:off 6:off'', [])
          else (127, [], ''not found'')),
      proc1_comm = None\<rparr>"

section \<open>Dictionary lemmas\<close>

lemma map_of_dict_set: "map_of (dict_set k v d) = (map_of d)(k \<mapsto> v)"
  by (simp add: dict_set_def update_conv')

lemma dict_set_not_Nil: "dict_set k v d \<noteq> []"
  by (cases d) (auto simp: dict_set_def)

lemma distinct_dict_set:
  "distinct (map fst d) \<Longrightarrow> distinct (map fst (dict_set k v d))"
  by (simp add: dict_set_def distinct_update)

lemma dict_ior_Nil_iff: "dict_ior d e = [] \<longleftrightarrow> d = [] \<and> e = []"
proof (induction e arbitrary: d)
  case Nil
  then show ?case by (simp add: dict_ior_def)
next
  case (Cons kv e)
  have "dict_ior d (kv # e) = dict_ior (dict_set (fst kv) (snd kv) d) e"
    by (simp add: dict_ior_def)
  with Cons show ?case by (simp add: dict_set_not_Nil)
qed

lemma map_of_dict_ior:
  "distinct (map fst e) \<Longrightarrow> map_of (dict_ior d e) = map_of d ++ map_of e"
proof (induction e arbitrary: d)
  case Nil
  then show ?case by (simp add: dict_ior_def)
next
  case (Cons kv e)
  have step: "dict_ior d (kv # e) = dict_ior (dict_set (fst kv) (snd kv) d) e"
    by (simp add: dict_ior_def)
  from Cons.prems have d: "distinct (map fst e)" and n: "fst kv \<notin> fst ` set e"
    by auto
  from n have none: "map_of e (fst kv) = None"
    by (simp add: map_of_eq_None_iff)
  have "map_of (dict_ior d (kv # e)) = map_of (dict_set (fst kv) (snd kv) d) ++ map_of e"
    by (simp only: step Cons.IH [OF d])
  also have "\<dots> = (map_of d)(fst kv \<mapsto> snd kv) ++ map_of e"
    by (simp only: map_of_dict_set)
  also have "\<dots> = map_of d ++ map_of (kv # e)"
    using none by (cases kv) (auto simp: map_add_def fun_eq_iff split: option.splits)
  finally show ?case .
qed

lemma distinct_dict_ior:
  "distinct (map fst d) \<Longrightarrow> distinct (map fst (dict_ior d e))"
proof (induction e arbitrary: d)
  case Nil
  then show ?case by (simp add: dict_ior_def)
next
  case (Cons kv e)
  have "dict_ior d (kv # e) = dict_ior (dict_set (fst kv) (snd kv) d) e"
    by (simp add: dict_ior_def)
  with Cons show ?case by (simp add: distinct_dict_set)
qed

lemma main_unfold:
  "main h =
     (let merged = dict_ior (dict_ior [] (contribution (service_gather h)))
                     (contribution (systemctl_gather h));
          warn = ((returned (service_gather h) \<noteq> None \<and> incomplete (service_gather h))
                  \<or> (returned (systemctl_gather h) \<noteq> None \<and> incomplete (systemctl_gather h)))
      in if merged = [] then
           Skipped ''Failed to find any services. Sometimes this is due to insufficient privileges.''
         else
           Facts merged
             (if warn then
                Some ''WARNING: Could not find status for all services. Sometimes this is due to insufficient privileges.''
              else None))"
  by (auto simp: main_def main_step_def contribution_def dict_ior_def Let_def
           split: option.splits)

section \<open>What the loops store\<close>

lemma list_all_dict_set:
  "list_all P d \<Longrightarrow> P (k, v) \<Longrightarrow> list_all P (dict_set k v d)"
  by (induction d) (auto simp: dict_set_def)

lemma list_all_dict_ior:
  "list_all P d \<Longrightarrow> list_all P e \<Longrightarrow> list_all P (dict_ior d e)"
proof (induction e arbitrary: d)
  case Nil
  then show ?case by (simp add: dict_ior_def)
next
  case (Cons kv e)
  have "dict_ior d (kv # e) = dict_ior (dict_set (fst kv) (snd kv) d) e"
    by (simp add: dict_ior_def)
  with Cons show ?case by (simp add: list_all_dict_set)
qed

lemma fold_stores_list_all:
  assumes step: "\<And>x s. stores P s (f x s)"
    and init: "list_all P (services st)"
  shows "list_all P (services (fold f xs st))"
  using init
proof (induction xs arbitrary: st)
  case Nil
  then show ?case by simp
next
  case (Cons x xs)
  from step [of st x] Cons.prems have "list_all P (services (f x st))"
    by (auto simp: stores_def list_all_dict_set)
  then show ?case using Cons.IH by simp
qed

lemma fold_stores_distinct:
  assumes step: "\<And>x s. stores P s (f x s)"
    and init: "distinct (map fst (services st))"
  shows "distinct (map fst (services (fold f xs st)))"
  using init
proof (induction xs arbitrary: st)
  case Nil
  then show ?case by simp
next
  case (Cons x xs)
  from step [of st x] Cons.prems have "distinct (map fst (services (f x st)))"
    by (auto simp: stores_def distinct_dict_set)
  then show ?case using Cons.IH by simp
qed

lemma stores_mono: "stores P s s' \<Longrightarrow> (\<And>kv. P kv \<Longrightarrow> Q kv) \<Longrightarrow> stores Q s s'"
  by (auto simp: stores_def)

lemma sysv_line_stores: "stores sysv_record st (sysv_line line st)"
  by (auto simp: stores_def sysv_line_def sysv_record_def Let_def)

lemma systemd_line_stores: "stores systemd_record st (systemd_line line st)"
  by (auto simp: stores_def systemd_line_def systemd_record_def Let_def)

lemma upstart_line_stores: "stores upstart_record st (upstart_line line st)"
  by (auto simp: stores_def upstart_line_def upstart_record_def Let_def split: option.splits)

lemma chkconfig_line_stores: "stores sysv_record st (chkconfig_line h sp line st)"
  by (auto simp: stores_def chkconfig_line_def sysv_record_def store_sysv_def log_call_def
        Let_def split: option.splits prod.splits)

section \<open>What the scanners return\<close>

lemma log_call_simps [simp]:
  "services (log_call c st) = services st"
  "incomplete_warning (log_call c st) = incomplete_warning st"
  "calls (log_call c st) = calls st @ [c]"
  by (simp_all add: log_call_def)

lemma scan0_simps [simp]:
  "services scan0 = []" "incomplete_warning scan0 = False" "calls scan0 = []"
  by (simp_all add: scan0_def)

lemma chkconfig_listing_services [simp]:
  "services (snd (chkconfig_listing h cp st)) = services st"
  by (simp add: chkconfig_listing_def Let_def split: prod.splits)

lemma chkconfig_listing_flag [simp]:
  "incomplete_warning (snd (chkconfig_listing h cp st)) = incomplete_warning st"
  by (simp add: chkconfig_listing_def Let_def split: prod.splits)

lemma sysv_scan_unfold:
  "sysv_scan h sp st =
     fold sysv_line (split_chr nl (fst (snd (run_command h (cmd_of (StatusAll sp))))))
       (log_call (StatusAll sp) st)"
  by (simp add: sysv_scan_def Let_def case_prod_beta)

lemma upstart_scan_unfold:
  "upstart_scan h ip st =
     fold upstart_line
       (split_chr nl (remove_chr (CHR 0x0D) (fst (snd (run_command h (cmd_of (InitctlList ip)))))))
       (log_call (InitctlList ip) st)"
  by (simp add: upstart_scan_def Let_def case_prod_beta)

lemma chkconfig_scan_unfold:
  "chkconfig_scan h sp cp st =
     fold (chkconfig_line h sp) (split_chr nl (fst (chkconfig_listing h cp st)))
       (snd (chkconfig_listing h cp st))"
  by (simp add: chkconfig_scan_def case_prod_beta)

lemma sysv_scan_inv:
  assumes "list_all scanned_record (services st)" "distinct (map fst (services st))"
  shows "list_all scanned_record (services (sysv_scan h sp st))"
    and "distinct (map fst (services (sysv_scan h sp st)))"
proof -
  have step: "\<And>x s. stores scanned_record s (sysv_line x s)"
    by (rule stores_mono [OF sysv_line_stores]) (simp add: scanned_record_def)
  show "list_all scanned_record (services (sysv_scan h sp st))"
    unfolding sysv_scan_unfold using assms(1)
    by (intro fold_stores_list_all [OF step]) simp
  show "distinct (map fst (services (sysv_scan h sp st)))"
    unfolding sysv_scan_unfold using assms(2)
    by (intro fold_stores_distinct [OF step]) simp
qed

lemma upstart_scan_inv:
  assumes "list_all scanned_record (services st)" "distinct (map fst (services st))"
  shows "list_all scanned_record (services (upstart_scan h ip st))"
    and "distinct (map fst (services (upstart_scan h ip st)))"
proof -
  have step: "\<And>x s. stores scanned_record s (upstart_line x s)"
    by (rule stores_mono [OF upstart_line_stores]) (simp add: scanned_record_def)
  show "list_all scanned_record (services (upstart_scan h ip st))"
    unfolding upstart_scan_unfold using assms(1)
    by (intro fold_stores_list_all [OF step]) simp
  show "distinct (map fst (services (upstart_scan h ip st)))"
    unfolding upstart_scan_unfold using assms(2)
    by (intro fold_stores_distinct [OF step]) simp
qed

lemma chkconfig_scan_inv:
  assumes "list_all P (services st)" "distinct (map fst (services st))"
    and "\<And>kv. sysv_record kv \<Longrightarrow> P kv"
  shows "list_all P (services (chkconfig_scan h sp cp st))"
    and "distinct (map fst (services (chkconfig_scan h sp cp st)))"
proof -
  have step: "\<And>x s. stores P s (chkconfig_line h sp x s)"
    by (rule stores_mono [OF chkconfig_line_stores]) (rule assms(3))
  show "list_all P (services (chkconfig_scan h sp cp st))"
    unfolding chkconfig_scan_unfold using assms(1)
    by (intro fold_stores_list_all [OF step]) simp
  show "distinct (map fst (services (chkconfig_scan h sp cp st)))"
    unfolding chkconfig_scan_unfold using assms(2)
    by (intro fold_stores_distinct [OF step]) simp
qed

lemma service_gather_inv:
  "list_all scanned_record (contribution (service_gather h))"
  "distinct (map fst (contribution (service_gather h)))"
proof -
  have a: "list_all scanned_record (services scan0)" "distinct (map fst (services scan0))"
    by simp_all
  have k: "\<And>kv. sysv_record kv \<Longrightarrow> scanned_record kv"
    by (simp add: scanned_record_def)
  note sysv = sysv_scan_inv [OF a]
  show "list_all scanned_record (contribution (service_gather h))"
    by (auto simp: service_gather_def contribution_def unavailable_def finished_def Let_def
          sysv upstart_scan_inv [OF sysv] chkconfig_scan_inv(1) [OF a k]
          split: option.splits)
  show "distinct (map fst (contribution (service_gather h)))"
    by (auto simp: service_gather_def contribution_def unavailable_def finished_def Let_def
          sysv upstart_scan_inv [OF sysv] chkconfig_scan_inv(2) [OF a k]
          split: option.splits)
qed

lemma systemd_line_flag [simp]:
  "incomplete_warning (systemd_line line st) = incomplete_warning st"
  by (simp add: systemd_line_def Let_def)

lemma fold_systemd_line_flag [simp]:
  "incomplete_warning (fold systemd_line xs st) = incomplete_warning st"
  by (induction xs arbitrary: st) simp_all

lemma systemctl_gather_unfold:
  "systemctl_gather h =
     (if \<not> systemd_enabled h then unavailable scan0
      else
        (case get_bin_path h ''systemctl'' [''/usr/bin'', ''/usr/local/bin''] of
           None \<Rightarrow> unavailable scan0
         | Some p \<Rightarrow>
             finished (fold systemd_line
               (split_chr nl (fst (snd (run_command h (cmd_of (UnitFiles p))))))
               (log_call (UnitFiles p) scan0))))"
  by (simp add: systemctl_gather_def Let_def case_prod_beta split: option.splits)

lemma systemctl_gather_inv:
  "list_all systemd_record (contribution (systemctl_gather h))"
  "distinct (map fst (contribution (systemctl_gather h)))"
  "\<not> incomplete (systemctl_gather h)"
proof -
  have step: "\<And>x s. stores systemd_record s (systemd_line x s)"
    by (rule systemd_line_stores)
  have a: "\<And>c. list_all systemd_record (services (log_call c scan0))"
    "\<And>c. distinct (map fst (services (log_call c scan0)))"
    by simp_all
  show "list_all systemd_record (contribution (systemctl_gather h))"
    by (auto simp: systemctl_gather_unfold contribution_def unavailable_def finished_def
          fold_stores_list_all [OF step a(1)] split: option.splits)
  show "distinct (map fst (contribution (systemctl_gather h)))"
    by (auto simp: systemctl_gather_unfold contribution_def unavailable_def finished_def
          fold_stores_distinct [OF step a(2)] split: option.splits)
  show "\<not> incomplete (systemctl_gather h)"
    by (auto simp: systemctl_gather_unfold unavailable_def finished_def
          split: option.splits)
qed

lemma service_gather_unavailable:
  "returned (service_gather h) = None \<Longrightarrow> \<not> incomplete (service_gather h)"
  by (auto simp: service_gather_def unavailable_def finished_def Let_def
        split: option.splits)

lemma scanned_coherent: "list_all scanned_record d \<Longrightarrow> coherent d"
  by (auto simp: coherent_def list_all_iff scanned_record_def sysv_record_def
        upstart_record_def systemd_record_def)

lemma sysv_running_or_stopped: "list_all sysv_record d \<Longrightarrow> running_or_stopped d"
  by (auto simp: running_or_stopped_def list_all_iff sysv_record_def)

lemma systemd_scanned: "list_all systemd_record d \<Longrightarrow> list_all scanned_record d"
  by (auto simp: list_all_iff scanned_record_def)

lemma merged_map:
  "map_of (dict_ior (dict_ior [] (contribution (service_gather h)))
             (contribution (systemctl_gather h)))
   = map_of (contribution (service_gather h)) ++ map_of (contribution (systemctl_gather h))"
  by (simp add: map_of_dict_ior service_gather_inv(2) systemctl_gather_inv(2))

lemma warn_flag:
  "((returned (service_gather h) \<noteq> None \<and> incomplete (service_gather h))
     \<or> (returned (systemctl_gather h) \<noteq> None \<and> incomplete (systemctl_gather h)))
   = (incomplete (service_gather h) \<or> incomplete (systemctl_gather h))"
  using service_gather_unavailable [of h] systemctl_gather_inv(3) [of h] by auto

section \<open>The commands the scanners run\<close>

lemma sysv_line_calls [simp]: "calls (sysv_line line st) = calls st"
  by (simp add: sysv_line_def Let_def)

lemma upstart_line_calls [simp]: "calls (upstart_line line st) = calls st"
  by (simp add: upstart_line_def Let_def split: option.splits)

lemma fold_sysv_line_calls [simp]: "calls (fold sysv_line xs st) = calls st"
  by (induction xs arbitrary: st) simp_all

lemma fold_upstart_line_calls [simp]: "calls (fold upstart_line xs st) = calls st"
  by (induction xs arbitrary: st) simp_all

lemma chkconfig_line_calls:
  "\<exists>probes. calls (chkconfig_line h sp line st) = calls st @ probes
             \<and> list_all (is_probe sp) probes"
  by (auto simp: chkconfig_line_def store_sysv_def Let_def case_prod_beta
        split: option.splits)

lemma fold_chkconfig_line_calls:
  "\<exists>probes. calls (fold (chkconfig_line h sp) xs st) = calls st @ probes
             \<and> list_all (is_probe sp) probes"
proof (induction xs arbitrary: st)
  case Nil
  then show ?case by simp
next
  case (Cons x xs)
  obtain p1 where p1: "calls (chkconfig_line h sp x st) = calls st @ p1"
      "list_all (is_probe sp) p1"
    using chkconfig_line_calls by blast
  obtain p2 where p2: "calls (fold (chkconfig_line h sp) xs (chkconfig_line h sp x st))
        = calls (chkconfig_line h sp x st) @ p2" "list_all (is_probe sp) p2"
    using Cons.IH by blast
  from p1 p2 have "calls (fold (chkconfig_line h sp) (x # xs) st) = calls st @ (p1 @ p2)
      \<and> list_all (is_probe sp) (p1 @ p2)"
    by simp
  then show ?case by blast
qed

lemma match_any_line_iff:
  "match_any_line p lines \<longleftrightarrow> (\<exists>line \<in> set lines. re_match p line \<noteq> None)"
proof -
  have "\<And>b. fold (\<lambda>line match_any. if re_match p line \<noteq> None then True else match_any) lines b
          \<longleftrightarrow> b \<or> (\<exists>line \<in> set lines. re_match p line \<noteq> None)"
    by (induction lines) auto
  then show ?thesis by (simp add: match_any_line_def)
qed

lemma chkconfig_listing_calls:
  "calls (snd (chkconfig_listing h cp st)) = calls st @ [ChkList cp]
   \<or> calls (snd (chkconfig_listing h cp st)) = calls st @ [ChkList cp, ChkListAll cp]
   \<or> calls (snd (chkconfig_listing h cp st)) = calls st @ [ChkList cp, ChkListFlag cp]"
  by (simp add: chkconfig_listing_def Let_def case_prod_beta)

lemma service_gather_chkconfig:
  assumes "get_bin_path h ''service'' [] = Some sp"
    and "get_bin_path h ''chkconfig'' [] = Some cp"
  shows "service_gather h = finished (chkconfig_scan h sp cp scan0)"
  using assms by (simp add: service_gather_def Let_def split: option.splits)

lemma chkconfig_scan_calls:
  "\<exists>rest. calls (chkconfig_scan h sp cp st) = calls st @ ChkList cp # rest
          \<and> list_all (\<lambda>c. c = ChkListAll cp \<or> c = ChkListFlag cp \<or> is_probe sp c) rest"
proof -
  obtain probes where p:
    "calls (chkconfig_scan h sp cp st) = calls (snd (chkconfig_listing h cp st)) @ probes"
    "list_all (is_probe sp) probes"
    unfolding chkconfig_scan_unfold using fold_chkconfig_line_calls by blast
  from p(2) have q: "list_all (\<lambda>c. c = ChkListAll cp \<or> c = ChkListFlag cp \<or> is_probe sp c) probes"
    by (auto simp: list_all_iff)
  from chkconfig_listing_calls [of h cp st] show ?thesis
  proof (elim disjE)
    assume "calls (snd (chkconfig_listing h cp st)) = calls st @ [ChkList cp]"
    with p(1) q show ?thesis by simp
  next
    assume "calls (snd (chkconfig_listing h cp st)) = calls st @ [ChkList cp, ChkListAll cp]"
    with p(1) q have "calls (chkconfig_scan h sp cp st) = calls st @ ChkList cp # (ChkListAll cp # probes)
      \<and> list_all (\<lambda>c. c = ChkListAll cp \<or> c = ChkListFlag cp \<or> is_probe sp c) (ChkListAll cp # probes)"
      by simp
    then show ?thesis by blast
  next
    assume "calls (snd (chkconfig_listing h cp st)) = calls st @ [ChkList cp, ChkListFlag cp]"
    with p(1) q have "calls (chkconfig_scan h sp cp st) = calls st @ ChkList cp # (ChkListFlag cp # probes)
      \<and> list_all (\<lambda>c. c = ChkListAll cp \<or> c = ChkListFlag cp \<or> is_probe sp c) (ChkListFlag cp # probes)"
      by simp
    then show ?thesis by blast
  qed
qed

lemma service_gather_trace:
  "trace (service_gather h) =
     (case get_bin_path h ''service'' [] of
        None \<Rightarrow> []
      | Some sp \<Rightarrow>
          (case get_bin_path h ''chkconfig'' [] of
             Some cp \<Rightarrow> calls (chkconfig_scan h sp cp scan0)
           | None \<Rightarrow>
               (case get_bin_path h ''initctl'' [] of
                  None \<Rightarrow> [StatusAll sp]
                | Some ip \<Rightarrow> [StatusAll sp, InitctlList ip])))"
  by (simp add: service_gather_def Let_def unavailable_def finished_def
        sysv_scan_unfold upstart_scan_unfold split: option.splits)

lemma chkconfig_scan_no_initctl:
  "InitctlList ip \<notin> set (calls (chkconfig_scan h sp cp scan0))"
proof -
  obtain rest where r: "calls (chkconfig_scan h sp cp scan0) = calls scan0 @ ChkList cp # rest"
    "list_all (\<lambda>c. c = ChkListAll cp \<or> c = ChkListFlag cp \<or> is_probe sp c) rest"
    using chkconfig_scan_calls by blast
  have "InitctlList ip \<notin> set rest"
  proof
    assume "InitctlList ip \<in> set rest"
    with r(2) have "is_probe sp (InitctlList ip)"
      by (auto simp: list_all_iff)
    then show False by simp
  qed
  with r(1) show ?thesis by simp
qed

lemma chkconfig_scan_listing:
  "ChkList cp' \<in> set (calls (chkconfig_scan h sp cp scan0)) \<longleftrightarrow> cp = cp'"
proof -
  obtain rest where r: "calls (chkconfig_scan h sp cp scan0) = calls scan0 @ ChkList cp # rest"
    "list_all (\<lambda>c. c = ChkListAll cp \<or> c = ChkListFlag cp \<or> is_probe sp c) rest"
    using chkconfig_scan_calls by blast
  have "ChkList cp' \<notin> set rest"
  proof
    assume "ChkList cp' \<in> set rest"
    with r(2) have "is_probe sp (ChkList cp')"
      by (auto simp: list_all_iff)
    then show False by simp
  qed
  with r(1) show ?thesis by auto
qed

section \<open>The chkconfig listing\<close>

lemma chkconfig_listing_all:
  assumes "run_command h (cmd_of (ChkList cp)) = (rc, out, err)"
    and "\<forall>line \<in> set (split_chr nl out). re_match chkconfig_re line = None"
    and "\<exists>line \<in> set (split_chr nl out). re_match chkconfig_simple_re line \<noteq> None"
  shows "chkconfig_listing h cp st =
           (fst (snd (run_command h (cmd_of (ChkListAll cp)))),
            log_call (ChkListAll cp) (log_call (ChkList cp) st))"
proof -
  have a: "\<not> match_any_line chkconfig_re (split_chr nl out)"
    using assms(2) by (simp add: match_any_line_iff)
  have b: "match_any_line chkconfig_simple_re (split_chr nl out)"
    using assms(3) by (simp add: match_any_line_iff)
  show ?thesis
    unfolding chkconfig_listing_def assms(1) using a b
    by (simp add: case_prod_beta del: cmd_of.simps)
qed

lemma chkconfig_listing_flag_rerun:
  assumes "run_command h (cmd_of (ChkList cp)) = (rc, out, err)"
    and "\<forall>line \<in> set (split_chr nl out). re_match chkconfig_re line = None"
    and "\<forall>line \<in> set (split_chr nl out). re_match chkconfig_simple_re line = None"
    and "contains ''--list'' err"
  shows "chkconfig_listing h cp st =
           (fst (snd (run_command h (cmd_of (ChkListFlag cp)))),
            log_call (ChkListFlag cp) (log_call (ChkList cp) st))"
proof -
  have a: "\<not> match_any_line chkconfig_re (split_chr nl out)"
    using assms(2) by (simp add: match_any_line_iff)
  have b: "\<not> match_any_line chkconfig_simple_re (split_chr nl out)"
    using assms(3) by (simp add: match_any_line_iff)
  show ?thesis
    unfolding chkconfig_listing_def assms(1) using a b assms(4)
    by (simp add: case_prod_beta del: cmd_of.simps)
qed

lemma log_call_twice:
  "log_call d (log_call c scan0) = \<lparr>services = [], incomplete_warning = False, calls = [c, d]\<rparr>"
  by (simp add: log_call_def scan0_def)

section \<open>The chkconfig loop, line by line\<close>

lemma chkconfig_line_nomatch:
  "re_match chkconfig_re line = None \<Longrightarrow> chkconfig_line h sp line st = st"
  by (simp add: chkconfig_line_def)

lemma chkconfig_line_denied:
  assumes "re_match chkconfig_re line = Some m"
    and "group m ''rl3'' = Str ''on''"
    and "run_command h (cmd_of (SvcStatus sp (group m ''service''))) = (rc, out, err)"
    and "rc \<noteq> 0"
    and "contains ''root'' err \<or> contains ''permission'' (lower err)
         \<or> contains ''not in sudoers'' (lower err)"
  shows "chkconfig_line h sp line st =
           (log_call (SvcStatus sp (group m ''service'')) st)\<lparr>incomplete_warning := True\<rparr>"
  unfolding chkconfig_line_def Let_def using assms
  by (simp del: cmd_of.simps)

lemma chkconfig_line_running:
  assumes "re_match chkconfig_re line = Some m"
    and "group m ''rl3'' = Str ''on''"
    and "run_command h (cmd_of (SvcStatus sp (group m ''service''))) = (0, out, err)"
  shows "chkconfig_line h sp line st =
           store_sysv (group m ''service'') (Str ''running'')
             (log_call (SvcStatus sp (group m ''service'')) st)"
  unfolding chkconfig_line_def Let_def using assms
  by (simp del: cmd_of.simps)

lemma chkconfig_line_other_key:
  assumes "re_match chkconfig_re line = Some m"
    and "group m ''service'' \<noteq> n"
  shows "map_of (services (chkconfig_line h sp line st)) n = map_of (services st) n"
  unfolding chkconfig_line_def Let_def using assms
  by (simp add: store_sysv_def map_of_dict_set case_prod_beta del: cmd_of.simps)

lemma chkconfig_line_flag_mono:
  "incomplete_warning st \<Longrightarrow> incomplete_warning (chkconfig_line h sp line st)"
  unfolding chkconfig_line_def Let_def
  by (simp add: store_sysv_def case_prod_beta split: option.splits del: cmd_of.simps)

lemma fold_chkconfig_flag_mono:
  "incomplete_warning st \<Longrightarrow> incomplete_warning (fold (chkconfig_line h sp) xs st)"
  by (induction xs arbitrary: st) (simp_all add: chkconfig_line_flag_mono)

lemma fold_chkconfig_denied_flag:
  assumes "l \<in> set xs"
    and "re_match chkconfig_re l = Some m"
    and "group m ''rl3'' = Str ''on''"
    and "run_command h (cmd_of (SvcStatus sp (group m ''service''))) = (rc, out, err)"
    and "rc \<noteq> 0"
    and "contains ''root'' err \<or> contains ''permission'' (lower err)
         \<or> contains ''not in sudoers'' (lower err)"
  shows "incomplete_warning (fold (chkconfig_line h sp) xs st)"
  using assms(1)
proof (induction xs arbitrary: st)
  case Nil
  then show ?case by simp
next
  case (Cons x xs)
  show ?case
  proof (cases "x = l")
    case True
    have "incomplete_warning (chkconfig_line h sp l st)"
      by (simp add: chkconfig_line_denied [OF assms(2-6)])
    with True show ?thesis by (simp add: fold_chkconfig_flag_mono)
  next
    case False
    with Cons show ?thesis by simp
  qed
qed

lemma fold_chkconfig_denied_absent:
  assumes only: "\<forall>l \<in> set xs. \<forall>m. re_match chkconfig_re l = Some m \<and> group m ''service'' = n
                   \<longrightarrow> group m ''rl3'' = Str ''on''"
    and probe: "run_command h (cmd_of (SvcStatus sp n)) = (rc, out, err)"
    and rc: "rc \<noteq> 0"
    and denied: "contains ''root'' err \<or> contains ''permission'' (lower err)
         \<or> contains ''not in sudoers'' (lower err)"
  shows "map_of (services (fold (chkconfig_line h sp) xs st)) n = map_of (services st) n"
  using only
proof (induction xs arbitrary: st)
  case Nil
  then show ?case by simp
next
  case (Cons x xs)
  have step: "map_of (services (chkconfig_line h sp x st)) n = map_of (services st) n"
  proof (cases "re_match chkconfig_re x")
    case None
    then show ?thesis by (simp add: chkconfig_line_nomatch)
  next
    case (Some m)
    show ?thesis
    proof (cases "group m ''service'' = n")
      case True
      with Some Cons.prems have on: "group m ''rl3'' = Str ''on''" by simp
      from probe True
      have p: "run_command h (cmd_of (SvcStatus sp (group m ''service''))) = (rc, out, err)"
        by simp
      show ?thesis by (simp add: chkconfig_line_denied [OF Some on p rc denied])
    next
      case False
      then show ?thesis by (rule chkconfig_line_other_key [OF Some])
    qed
  qed
  from Cons.prems
  have "\<forall>l \<in> set xs. \<forall>m. re_match chkconfig_re l = Some m \<and> group m ''service'' = n
                   \<longrightarrow> group m ''rl3'' = Str ''on''"
    by simp
  from Cons.IH [OF this] step show ?case by simp
qed

lemma fold_chkconfig_running:
  assumes only: "\<forall>l \<in> set xs. \<forall>m. re_match chkconfig_re l = Some m \<and> group m ''service'' = n
                   \<longrightarrow> group m ''rl3'' = Str ''on''"
    and seen: "map_of (services st) n = Some R
               \<or> (\<exists>l \<in> set xs. \<exists>m. re_match chkconfig_re l = Some m \<and> group m ''service'' = n)"
    and probe: "run_command h (cmd_of (SvcStatus sp n)) = (0, out, err)"
    and R: "R = [(''name'', n), (''state'', Str ''running''), (''source'', Str ''sysv'')]"
  shows "map_of (services (fold (chkconfig_line h sp) xs st)) n = Some R"
  using only seen
proof (induction xs arbitrary: st)
  case Nil
  then show ?case by simp
next
  case (Cons x xs)
  from Cons.prems(1)
  have rest: "\<forall>l \<in> set xs. \<forall>m. re_match chkconfig_re l = Some m \<and> group m ''service'' = n
                   \<longrightarrow> group m ''rl3'' = Str ''on''"
    by simp
  show ?case
  proof (cases "\<exists>m. re_match chkconfig_re x = Some m \<and> group m ''service'' = n")
    case True
    then obtain m where m: "re_match chkconfig_re x = Some m" "group m ''service'' = n"
      by blast
    with Cons.prems(1) have on: "group m ''rl3'' = Str ''on''" by simp
    from probe m(2)
    have p: "run_command h (cmd_of (SvcStatus sp (group m ''service''))) = (0, out, err)"
      by simp
    have "map_of (services (chkconfig_line h sp x st)) n = Some R"
      by (simp add: chkconfig_line_running [OF m(1) on p] store_sysv_def map_of_dict_set m(2) R)
    then show ?thesis using Cons.IH [OF rest] by simp
  next
    case False
    have step: "map_of (services (chkconfig_line h sp x st)) n = map_of (services st) n"
    proof (cases "re_match chkconfig_re x")
      case None
      then show ?thesis by (simp add: chkconfig_line_nomatch)
    next
      case (Some m)
      with False have "group m ''service'' \<noteq> n" by simp
      then show ?thesis by (rule chkconfig_line_other_key [OF Some])
    qed
    from Cons.prems(2) False
    have "map_of (services st) n = Some R
               \<or> (\<exists>l \<in> set xs. \<exists>m. re_match chkconfig_re l = Some m \<and> group m ''service'' = n)"
      by auto
    with step
    have "map_of (services (chkconfig_line h sp x st)) n = Some R
               \<or> (\<exists>l \<in> set xs. \<exists>m. re_match chkconfig_re l = Some m \<and> group m ''service'' = n)"
      by simp
    from Cons.IH [OF rest this] show ?thesis by simp
  qed
qed

section \<open>The Upstart loop, line by line\<close>

text \<open>Whatever the line, the payload stored for a match has the four keys of line 80.\<close>

lemma upstart_line_payload:
  assumes "re_match upstart_re line = Some m"
  shows "map_of (services (upstart_line line st)) (group m ''name'')
           = Some [(''name'', group m ''name''), (''state'', group m ''state''),
                   (''goal'', group m ''goal''), (''source'', Str ''upstart'')]"
  using assms by (simp add: upstart_line_def Let_def map_of_dict_set)

section \<open>The example hosts, evaluated\<close>

lemma host_upstart_gather:
  "service_gather host_upstart =
     \<lparr>returned = Some
        [(Str ''cron'', [(''name'', Str ''cron''), (''state'', Str ''running''),
                         (''source'', Str ''sysv'')]),
         (Str ''ssh'', [(''name'', Str ''ssh''), (''state'', Str ''running''),
                        (''goal'', Str ''start''), (''source'', Str ''upstart'')])],
      incomplete = False,
      trace = [StatusAll ''/sbin/service'', InitctlList ''/sbin/initctl'']\<rparr>"
  by code_simp

lemma host_chkconfig_gather:
  "service_gather host_chkconfig =
     \<lparr>returned = Some
        [(Str ''sshd'', [(''name'', Str ''sshd''), (''state'', Str ''running''),
                         (''source'', Str ''sysv'')]),
         (Str ''cups'', [(''name'', Str ''cups''), (''state'', Str ''stopped''),
                         (''source'', Str ''sysv'')])],
      incomplete = True,
      trace = [ChkList ''/sbin/chkconfig'', SvcStatus ''/sbin/service'' (Str ''sshd''),
               SvcStatus ''/sbin/service'' (Str ''ntpd'')]\<rparr>"
  by code_simp

lemma host_chkconfig_lines:
  "split_chr nl (fst (chkconfig_listing host_chkconfig ''/sbin/chkconfig'' scan0))
     = [''sshd 0:off 1:off 2:on 3:on 4:on 5:on 6:off'',
        ''ntpd 0:off 1:off 2:on 3:on 4:on 5:on 6:off'',
        ''cups 0:off 1:off 2:off 3:off 4:off 5:off 6:off'']"
  by code_simp

lemma host_chkconfig_matches:
  "re_match chkconfig_re ''sshd 0:off 1:off 2:on 3:on 4:on 5:on 6:off''
     = Some [(''rl6'', ''off''), (''rl5'', ''on''), (''rl4'', ''on''), (''rl3'', ''on''),
             (''rl2'', ''on''), (''rl1'', ''off''), (''rl0'', ''off''), (''service'', ''sshd'')]"
  "re_match chkconfig_re ''ntpd 0:off 1:off 2:on 3:on 4:on 5:on 6:off''
     = Some [(''rl6'', ''off''), (''rl5'', ''on''), (''rl4'', ''on''), (''rl3'', ''on''),
             (''rl2'', ''on''), (''rl1'', ''off''), (''rl0'', ''off''), (''service'', ''ntpd'')]"
  "re_match chkconfig_re ''cups 0:off 1:off 2:off 3:off 4:off 5:off 6:off''
     = Some [(''rl6'', ''off''), (''rl5'', ''off''), (''rl4'', ''off''), (''rl3'', ''off''),
             (''rl2'', ''off''), (''rl1'', ''off''), (''rl0'', ''off''), (''service'', ''cups'')]"
  by code_simp+

section \<open>The line parsers\<close>

text \<open>
  Claim C7.  A SysV status line that splits into at least four whitespace tokens, with
  \<open>+\<close> or \<open>-\<close> as the second token, stores exactly one record: under the space-join of the
  tokens from the fourth on, with state \<open>running\<close> for \<open>+\<close> and \<open>stopped\<close> for \<open>-\<close> and
  source \<open>sysv\<close>; every other key, the flag and the trace are left as they were.  A line
  with fewer than four tokens changes nothing.
\<close>

theorem sysv_line_record:
  "(4 \<le> length (split_ws line) \<and> split_ws line ! 1 = ''+'' \<longrightarrow>
      map_of (services (sysv_line line st)) (Str (join '' '' (drop 3 (split_ws line))))
        = Some [(''name'', Str (join '' '' (drop 3 (split_ws line)))),
                (''state'', Str ''running''), (''source'', Str ''sysv'')])
   \<and> (4 \<le> length (split_ws line) \<and> split_ws line ! 1 = ''-'' \<longrightarrow>
      map_of (services (sysv_line line st)) (Str (join '' '' (drop 3 (split_ws line))))
        = Some [(''name'', Str (join '' '' (drop 3 (split_ws line)))),
                (''state'', Str ''stopped''), (''source'', Str ''sysv'')])
   \<and> (4 \<le> length (split_ws line) \<longrightarrow>
        (\<forall>k. k \<noteq> Str (join '' '' (drop 3 (split_ws line))) \<longrightarrow>
             map_of (services (sysv_line line st)) k = map_of (services st) k)
        \<and> incomplete_warning (sysv_line line st) = incomplete_warning st
        \<and> calls (sysv_line line st) = calls st)
   \<and> (length (split_ws line) < 4 \<longrightarrow> sysv_line line st = st)"
  by (simp add: sysv_line_def Let_def map_of_dict_set)

theorem sysv_line_record_witness:
  "map_of (services (sysv_line '' [ + ]  acpid'' scan0)) (Str ''acpid'')
     = Some [(''name'', Str ''acpid''), (''state'', Str ''running''), (''source'', Str ''sysv'')]
   \<and> map_of (services (sysv_line '' [ - ]  boot log d'' scan0)) (Str ''boot log d'')
     = Some [(''name'', Str ''boot log d''), (''state'', Str ''stopped''), (''source'', Str ''sysv'')]
   \<and> map_of (services (sysv_line '' [ + ]  acpid'' scan0)) (Str ''cron'') = None
   \<and> sysv_line '' [ ? ]'' scan0 = scan0"
  using sysv_line_record [of "'' [ + ]  acpid''" scan0]
        sysv_line_record [of "'' [ - ]  boot log d''" scan0]
        sysv_line_record [of "'' [ ? ]''" scan0]
  by (simp add: split_ws_def isspace_def scan0_def)

text \<open>
  Claim C8.  A line of the systemd listing that splits into exactly two whitespace tokens
  stores exactly one record: under the first token, with state \<open>running\<close> when the second
  token is \<open>enabled\<close> and \<open>stopped\<close> for any other value, and source \<open>systemd\<close>.  A line
  that does not split into exactly two tokens changes nothing.
\<close>

theorem systemd_line_record:
  "(length (split_ws line) = 2 \<and> split_ws line ! 1 = ''enabled'' \<longrightarrow>
      map_of (services (systemd_line line st)) (Str (split_ws line ! 0))
        = Some [(''name'', Str (split_ws line ! 0)),
                (''state'', Str ''running''), (''source'', Str ''systemd'')])
   \<and> (length (split_ws line) = 2 \<and> split_ws line ! 1 \<noteq> ''enabled'' \<longrightarrow>
      map_of (services (systemd_line line st)) (Str (split_ws line ! 0))
        = Some [(''name'', Str (split_ws line ! 0)),
                (''state'', Str ''stopped''), (''source'', Str ''systemd'')])
   \<and> (length (split_ws line) = 2 \<longrightarrow>
        (\<forall>k. k \<noteq> Str (split_ws line ! 0) \<longrightarrow>
             map_of (services (systemd_line line st)) k = map_of (services st) k)
        \<and> incomplete_warning (systemd_line line st) = incomplete_warning st
        \<and> calls (systemd_line line st) = calls st)
   \<and> (length (split_ws line) \<noteq> 2 \<longrightarrow> systemd_line line st = st)"
  by (simp add: systemd_line_def Let_def map_of_dict_set)

theorem systemd_line_record_witness:
  "map_of (services (systemd_line ''sshd.service   enabled '' scan0)) (Str ''sshd.service'')
     = Some [(''name'', Str ''sshd.service''), (''state'', Str ''running''),
             (''source'', Str ''systemd'')]
   \<and> map_of (services (systemd_line ''arp-ethers.service disabled'' scan0))
        (Str ''arp-ethers.service'')
     = Some [(''name'', Str ''arp-ethers.service''), (''state'', Str ''stopped''),
             (''source'', Str ''systemd'')]
   \<and> map_of (services (systemd_line ''sshd.service   enabled '' scan0)) (Str ''cron'') = None
   \<and> systemd_line ''12 unit files listed.'' scan0 = scan0"
  using systemd_line_record [of "''sshd.service   enabled ''" scan0]
        systemd_line_record [of "''arp-ethers.service disabled''" scan0]
        systemd_line_record [of "''12 unit files listed.''" scan0]
  by (simp add: split_ws_def isspace_def scan0_def)

section \<open>The merge and the report\<close>

text \<open>
  Claim C1.  When both scanners return a record under the same service name, the report is
  a success and its services map holds, under that name, the record of the systemd
  scanner as a whole: the scanners are merged in the order \<open>ServiceScanService\<close> (sysv,
  Upstart or chkconfig) then \<open>SystemctlScanService\<close>, a later record replacing an earlier
  one.
\<close>

theorem merge_later_backend_wins:
  assumes "returned (service_gather h) = Some first"
    and "returned (systemctl_gather h) = Some second"
    and "map_of first name = Some r1"
    and "map_of second name = Some r2"
  shows "\<exists>merged msg. main h = Facts merged msg \<and> map_of merged name = Some r2"
proof -
  let ?m = "dict_ior (dict_ior [] (contribution (service_gather h)))
              (contribution (systemctl_gather h))"
  have c: "contribution (service_gather h) = first" "contribution (systemctl_gather h) = second"
    using assms(1,2) by (simp_all add: contribution_def)
  have "map_of ?m = map_of first ++ map_of second"
    using merged_map [of h] by (simp only: c)
  then have "map_of ?m name = Some r2"
    using assms(4) by (simp add: map_add_def)
  moreover from this have "?m \<noteq> []" by auto
  then have "\<exists>msg. main h = Facts ?m msg"
    by (simp add: main_unfold Let_def)
  ultimately show ?thesis by blast
qed

theorem merge_later_backend_wins_witness:
  "returned (service_gather host_sysv_systemd)
     = Some [(Str ''ssh'', [(''name'', Str ''ssh''), (''state'', Str ''running''),
                            (''source'', Str ''sysv'')])]
   \<and> returned (systemctl_gather host_sysv_systemd)
     = Some [(Str ''ssh'', [(''name'', Str ''ssh''), (''state'', Str ''stopped''),
                            (''source'', Str ''systemd'')])]
   \<and> (\<exists>merged msg. main host_sysv_systemd = Facts merged msg
         \<and> map_of merged (Str ''ssh'')
            = Some [(''name'', Str ''ssh''), (''state'', Str ''stopped''),
                    (''source'', Str ''systemd'')])"
proof -
  have a: "returned (service_gather host_sysv_systemd)
     = Some [(Str ''ssh'', [(''name'', Str ''ssh''), (''state'', Str ''running''),
                            (''source'', Str ''sysv'')])]"
    by code_simp
  have b: "returned (systemctl_gather host_sysv_systemd)
     = Some [(Str ''ssh'', [(''name'', Str ''ssh''), (''state'', Str ''stopped''),
                            (''source'', Str ''systemd'')])]"
    by code_simp
  show ?thesis
    using merge_later_backend_wins [OF a b, of "Str ''ssh''"] a b by simp
qed

text \<open>
  Claim C6.  \<open>main\<close> is a total function of the host.  When no scanner contributes a record
  (each returned \<^verbatim>\<open>None\<close> or an empty dictionary) the report is \<open>Skipped\<close> with the
  "Failed to find any services" message.  Otherwise it is \<open>Facts\<close> with a non-empty map,
  the first scanner's records overwritten by the second's, and it carries the warning
  message exactly when a scanner's \<^verbatim>\<open>incomplete_warning\<close> flag is set.
\<close>

theorem main_report:
  "(contribution (service_gather h) = [] \<and> contribution (systemctl_gather h) = [] \<longrightarrow>
      main h = Skipped ''Failed to find any services. Sometimes this is due to insufficient privileges.'')
   \<and> (contribution (service_gather h) \<noteq> [] \<or> contribution (systemctl_gather h) \<noteq> [] \<longrightarrow>
      (\<exists>merged. merged \<noteq> []
         \<and> map_of merged = map_of (contribution (service_gather h))
                              ++ map_of (contribution (systemctl_gather h))
         \<and> main h = Facts merged
              (if incomplete (service_gather h) \<or> incomplete (systemctl_gather h)
               then Some ''WARNING: Could not find status for all services. Sometimes this is due to insufficient privileges.''
               else None)))"
proof -
  let ?m = "dict_ior (dict_ior [] (contribution (service_gather h)))
              (contribution (systemctl_gather h))"
  have e: "?m = [] \<longleftrightarrow>
      contribution (service_gather h) = [] \<and> contribution (systemctl_gather h) = []"
    by (simp add: dict_ior_Nil_iff)
  show ?thesis
  proof (intro conjI impI)
    assume "contribution (service_gather h) = [] \<and> contribution (systemctl_gather h) = []"
    with e have "?m = []" by simp
    then show "main h = Skipped ''Failed to find any services. Sometimes this is due to insufficient privileges.''"
      by (simp add: main_unfold Let_def)
  next
    assume "contribution (service_gather h) \<noteq> [] \<or> contribution (systemctl_gather h) \<noteq> []"
    with e have ne: "?m \<noteq> []" by blast
    have "main h = Facts ?m
              (if incomplete (service_gather h) \<or> incomplete (systemctl_gather h)
               then Some ''WARNING: Could not find status for all services. Sometimes this is due to insufficient privileges.''
               else None)"
      using ne by (simp only: main_unfold Let_def warn_flag if_False)
    with ne merged_map [of h]
    show "\<exists>merged. merged \<noteq> []
         \<and> map_of merged = map_of (contribution (service_gather h))
                              ++ map_of (contribution (systemctl_gather h))
         \<and> main h = Facts merged
              (if incomplete (service_gather h) \<or> incomplete (systemctl_gather h)
               then Some ''WARNING: Could not find status for all services. Sometimes this is due to insufficient privileges.''
               else None)"
      by blast
  qed
qed

theorem main_report_witness:
  "main host_bare = Skipped ''Failed to find any services. Sometimes this is due to insufficient privileges.''
   \<and> (\<exists>merged. merged \<noteq> []
         \<and> map_of merged (Str ''sshd'')
             = Some [(''name'', Str ''sshd''), (''state'', Str ''running''), (''source'', Str ''sysv'')]
         \<and> map_of merged (Str ''ntpd'') = None
         \<and> main host_chkconfig = Facts merged
              (Some ''WARNING: Could not find status for all services. Sometimes this is due to insufficient privileges.''))"
proof -
  have a: "contribution (service_gather host_bare) = []"
    "contribution (systemctl_gather host_bare) = []"
    by code_simp+
  have b: "contribution (systemctl_gather host_chkconfig) = []"
    by code_simp
  have c: "contribution (service_gather host_chkconfig) =
      [(Str ''sshd'', [(''name'', Str ''sshd''), (''state'', Str ''running''),
                       (''source'', Str ''sysv'')]),
       (Str ''cups'', [(''name'', Str ''cups''), (''state'', Str ''stopped''),
                       (''source'', Str ''sysv'')])]"
    "incomplete (service_gather host_chkconfig)"
    by (simp_all add: host_chkconfig_gather contribution_def)
  from main_report [of host_bare] a
  have "main host_bare = Skipped ''Failed to find any services. Sometimes this is due to insufficient privileges.''"
    by simp
  moreover from main_report [of host_chkconfig] b c
  have "\<exists>merged. merged \<noteq> []
         \<and> map_of merged (Str ''sshd'')
             = Some [(''name'', Str ''sshd''), (''state'', Str ''running''), (''source'', Str ''sysv'')]
         \<and> map_of merged (Str ''ntpd'') = None
         \<and> main host_chkconfig = Facts merged
              (Some ''WARNING: Could not find status for all services. Sometimes this is due to insufficient privileges.'')"
    by auto
  ultimately show ?thesis by simp
qed

section \<open>Invariants of the records\<close>

text \<open>
  Claim C9.  In the map returned by either scanner and in the merged map of the report,
  the record stored under a key has that key as its \<^verbatim>\<open>name\<close> and one of \<^verbatim>\<open>sysv\<close>,
  \<^verbatim>\<open>upstart\<close>, \<^verbatim>\<open>systemd\<close> as its \<^verbatim>\<open>source\<close>.
\<close>

theorem registry_coherent:
  "(\<forall>d. returned (service_gather h) = Some d \<longrightarrow> coherent d)
   \<and> (\<forall>d. returned (systemctl_gather h) = Some d \<longrightarrow> coherent d)
   \<and> (\<forall>merged msg. main h = Facts merged msg \<longrightarrow> coherent merged)"
proof -
  have a: "list_all scanned_record (contribution (service_gather h))"
    by (rule service_gather_inv(1))
  have b: "list_all scanned_record (contribution (systemctl_gather h))"
    by (rule systemd_scanned [OF systemctl_gather_inv(1)])
  have m: "list_all scanned_record
             (dict_ior (dict_ior [] (contribution (service_gather h)))
                (contribution (systemctl_gather h)))"
    by (intro list_all_dict_ior a b) simp
  have "\<And>d. returned (service_gather h) = Some d \<Longrightarrow> coherent d"
    using scanned_coherent [OF a] by (simp add: contribution_def)
  moreover have "\<And>d. returned (systemctl_gather h) = Some d \<Longrightarrow> coherent d"
    using scanned_coherent [OF b] by (simp add: contribution_def)
  moreover have "\<And>merged msg. main h = Facts merged msg \<Longrightarrow> coherent merged"
    using scanned_coherent [OF m] by (auto simp: main_unfold Let_def split: if_splits)
  ultimately show ?thesis by blast
qed

theorem registry_coherent_witness:
  "coherent
     [(Str ''cron'', [(''name'', Str ''cron''), (''state'', Str ''running''),
                      (''source'', Str ''sysv'')]),
      (Str ''ssh'', [(''name'', Str ''ssh''), (''state'', Str ''running''),
                     (''goal'', Str ''start''), (''source'', Str ''upstart'')])]"
  using registry_coherent [of host_upstart] by (simp add: host_upstart_gather)

text \<open>
  Claim C10.  On a host with \<^verbatim>\<open>service\<close> and \<^verbatim>\<open>chkconfig\<close> the scanner returns what the
  chkconfig branch stored, and every record there has the state \<^verbatim>\<open>running\<close> or
  \<^verbatim>\<open>stopped\<close>: the exit code assigned to \<^verbatim>\<open>service_state\<close> on line 125 never reaches a
  record.
\<close>

theorem chkconfig_state_running_or_stopped:
  assumes "get_bin_path h ''service'' [] = Some sp"
    and "get_bin_path h ''chkconfig'' [] = Some cp"
  shows "returned (service_gather h) = Some (services (chkconfig_scan h sp cp scan0))
         \<and> running_or_stopped (services (chkconfig_scan h sp cp scan0))"
proof -
  have "list_all sysv_record (services (chkconfig_scan h sp cp scan0))"
    by (rule chkconfig_scan_inv(1)) simp_all
  then have "running_or_stopped (services (chkconfig_scan h sp cp scan0))"
    by (rule sysv_running_or_stopped)
  moreover have "returned (service_gather h) = Some (services (chkconfig_scan h sp cp scan0))"
    using assms by (simp add: service_gather_def finished_def Let_def split: option.splits)
  ultimately show ?thesis by simp
qed

theorem chkconfig_state_running_or_stopped_witness:
  "running_or_stopped
     [(Str ''sshd'', [(''name'', Str ''sshd''), (''state'', Str ''running''),
                      (''source'', Str ''sysv'')]),
      (Str ''cups'', [(''name'', Str ''cups''), (''state'', Str ''stopped''),
                      (''source'', Str ''sysv'')])]"
proof -
  have a: "get_bin_path host_chkconfig ''service'' [] = Some ''/sbin/service''"
    and b: "get_bin_path host_chkconfig ''chkconfig'' [] = Some ''/sbin/chkconfig''"
    by (simp_all add: host_chkconfig_def)
  from chkconfig_state_running_or_stopped [OF a b] show ?thesis
    by (simp add: host_chkconfig_gather)
qed

section \<open>Which backend runs\<close>

text \<open>
  Claim C3, as amended.  The Upstart listing is run exactly when \<^verbatim>\<open>service\<close> and
  \<^verbatim>\<open>initctl\<close> are found and \<^verbatim>\<open>chkconfig\<close> is not; the chkconfig listing is run exactly
  when \<^verbatim>\<open>service\<close> and \<^verbatim>\<open>chkconfig\<close> are found.  Both decisions depend on the
  \<^verbatim>\<open>service\<close> binary: without it \<^verbatim>\<open>gather_services\<close> returns \<^verbatim>\<open>None\<close> on line 52, before
  either test.
\<close>

theorem backend_applicability:
  "(InitctlList ip \<in> set (trace (service_gather h)) \<longleftrightarrow>
      get_bin_path h ''service'' [] \<noteq> None \<and> get_bin_path h ''initctl'' [] = Some ip
      \<and> get_bin_path h ''chkconfig'' [] = None)
   \<and> (ChkList cp \<in> set (trace (service_gather h)) \<longleftrightarrow>
      get_bin_path h ''service'' [] \<noteq> None \<and> get_bin_path h ''chkconfig'' [] = Some cp)"
proof (cases "get_bin_path h ''service'' []")
  case None
  then show ?thesis by (simp add: service_gather_trace)
next
  case (Some sp)
  show ?thesis
  proof (cases "get_bin_path h ''chkconfig'' []")
    case chk: (Some cp')
    with Some have "trace (service_gather h) = calls (chkconfig_scan h sp cp' scan0)"
      by (simp add: service_gather_trace)
    with Some chk show ?thesis
      by (simp add: chkconfig_scan_no_initctl chkconfig_scan_listing)
  next
    case nochk: None
    show ?thesis
    proof (cases "get_bin_path h ''initctl'' []")
      case None
      with Some nochk show ?thesis by (simp add: service_gather_trace)
    next
      case up: (Some ip')
      with Some nochk have "trace (service_gather h) = [StatusAll sp, InitctlList ip']"
        by (simp add: service_gather_trace)
      with Some nochk up show ?thesis by auto
    qed
  qed
qed

theorem backend_applicability_witness:
  "InitctlList ''/sbin/initctl'' \<in> set (trace (service_gather host_upstart))
   \<and> ChkList ''/sbin/chkconfig'' \<in> set (trace (service_gather host_chkconfig))
   \<and> InitctlList ''/sbin/initctl'' \<notin> set (trace (service_gather host_chkconfig))"
proof -
  have a: "get_bin_path host_upstart ''service'' [] \<noteq> None"
    "get_bin_path host_upstart ''initctl'' [] = Some ''/sbin/initctl''"
    "get_bin_path host_upstart ''chkconfig'' [] = None"
    by (simp_all add: host_upstart_def)
  have b: "get_bin_path host_chkconfig ''service'' [] \<noteq> None"
    "get_bin_path host_chkconfig ''initctl'' [] = Some ''/sbin/initctl''"
    "get_bin_path host_chkconfig ''chkconfig'' [] = Some ''/sbin/chkconfig''"
    by (simp_all add: host_chkconfig_def)
  from backend_applicability [of "''/sbin/initctl''" host_upstart "''/sbin/chkconfig''"] a
  have "InitctlList ''/sbin/initctl'' \<in> set (trace (service_gather host_upstart))"
    by simp
  moreover
  from backend_applicability [of "''/sbin/initctl''" host_chkconfig "''/sbin/chkconfig''"] b
  have "ChkList ''/sbin/chkconfig'' \<in> set (trace (service_gather host_chkconfig))
     \<and> InitctlList ''/sbin/initctl'' \<notin> set (trace (service_gather host_chkconfig))"
    by simp
  ultimately show ?thesis by simp
qed

text \<open>
  Claim C3 as stated fails: of two hosts that both have \<^verbatim>\<open>initctl\<close> and no \<^verbatim>\<open>chkconfig\<close>,
  the one without \<^verbatim>\<open>service\<close> runs no command at all and returns \<^verbatim>\<open>None\<close>, the one with
  \<^verbatim>\<open>service\<close> runs the Upstart listing.
\<close>

theorem service_binary_decides_counterexample:
  "get_bin_path host_initctl_only ''initctl'' [] = Some ''/sbin/initctl''
   \<and> get_bin_path host_initctl_only ''chkconfig'' [] = None
   \<and> get_bin_path host_initctl_only ''service'' [] = None
   \<and> service_gather host_initctl_only = \<lparr>returned = None, incomplete = False, trace = []\<rparr>
   \<and> get_bin_path host_upstart ''initctl'' [] = Some ''/sbin/initctl''
   \<and> get_bin_path host_upstart ''chkconfig'' [] = None
   \<and> get_bin_path host_upstart ''service'' [] = Some ''/sbin/service''
   \<and> trace (service_gather host_upstart)
        = [StatusAll ''/sbin/service'', InitctlList ''/sbin/initctl'']"
  by (simp add: host_upstart_gather)
     (simp add: host_initctl_only_def host_upstart_def service_gather_def unavailable_def)

section \<open>The Upstart record\<close>

text \<open>
  Claim C2.  On the line \<^verbatim>\<open>ssh start/running, process 1234\<close> the pattern captures the
  name, the goal, the state and the pid \<^verbatim>\<open>1234\<close>, but the record that is stored has the
  keys \<^verbatim>\<open>name\<close>, \<^verbatim>\<open>state\<close>, \<^verbatim>\<open>goal\<close> and \<^verbatim>\<open>source\<close> only: line 79 computes \<^verbatim>\<open>pid\<close> and
  line 80 leaves it out of the payload.
\<close>

theorem upstart_record_without_pid:
  "re_match upstart_re ''ssh start/running, process 1234''
     = Some [(''pid'', ''1234''), (''state'', ''running''), (''goal'', ''start''),
             (''name'', ''ssh'')]
   \<and> services (upstart_line ''ssh start/running, process 1234'' scan0)
     = [(Str ''ssh'', [(''name'', Str ''ssh''), (''state'', Str ''running''),
                       (''goal'', Str ''start''), (''source'', Str ''upstart'')])]
   \<and> map_of [(''name'', Str ''ssh''), (''state'', Str ''running''),
              (''goal'', Str ''start''), (''source'', Str ''upstart'')] ''pid'' = None"
  by code_simp

section \<open>The chkconfig fallback chain\<close>

text \<open>
  Claim C5.  On a host with \<^verbatim>\<open>service\<close> and \<^verbatim>\<open>chkconfig\<close>, let the seven-runlevel
  pattern match no line of the plain listing.  If the two-column pattern matches some
  line, the listing is run once more with \<^verbatim>\<open>-l --allservices\<close>: the commands run are the
  plain listing, that second listing, and then status probes only, and the result is the
  final loop (which matches each line against the seven-runlevel pattern) over the second
  listing's \<^verbatim>\<open>stdout\<close>.  If the two-column pattern matches no line either and the first
  run's \<^verbatim>\<open>stderr\<close> contains \<^verbatim>\<open>--list\<close>, the same holds with the flag \<^verbatim>\<open>--list\<close>.
\<close>

theorem chkconfig_fallback_chain:
  assumes sp: "get_bin_path h ''service'' [] = Some sp"
    and cp: "get_bin_path h ''chkconfig'' [] = Some cp"
    and base: "run_command h (cmd_of (ChkList cp)) = (rc, out, err)"
    and primary: "\<forall>line \<in> set (split_chr nl out). re_match chkconfig_re line = None"
  shows "((\<exists>line \<in> set (split_chr nl out). re_match chkconfig_simple_re line \<noteq> None) \<longrightarrow>
            service_gather h =
              finished (fold (chkconfig_line h sp)
                (split_chr nl (fst (snd (run_command h (cmd_of (ChkListAll cp))))))
                \<lparr>services = [], incomplete_warning = False,
                  calls = [ChkList cp, ChkListAll cp]\<rparr>)
            \<and> (\<exists>probes. trace (service_gather h) = ChkList cp # ChkListAll cp # probes
                  \<and> list_all (is_probe sp) probes))
         \<and> ((\<forall>line \<in> set (split_chr nl out). re_match chkconfig_simple_re line = None)
              \<and> contains ''--list'' err \<longrightarrow>
            service_gather h =
              finished (fold (chkconfig_line h sp)
                (split_chr nl (fst (snd (run_command h (cmd_of (ChkListFlag cp))))))
                \<lparr>services = [], incomplete_warning = False,
                  calls = [ChkList cp, ChkListFlag cp]\<rparr>)
            \<and> (\<exists>probes. trace (service_gather h) = ChkList cp # ChkListFlag cp # probes
                  \<and> list_all (is_probe sp) probes))"
proof -
  note g = service_gather_chkconfig [OF sp cp]
  have rerun:
    "\<And>c out2. chkconfig_listing h cp scan0 = (out2, log_call c (log_call (ChkList cp) scan0)) \<Longrightarrow>
       service_gather h =
         finished (fold (chkconfig_line h sp) (split_chr nl out2)
           \<lparr>services = [], incomplete_warning = False, calls = [ChkList cp, c]\<rparr>)
       \<and> (\<exists>probes. trace (service_gather h) = ChkList cp # c # probes
             \<and> list_all (is_probe sp) probes)"
  proof -
    fix c out2
    assume l: "chkconfig_listing h cp scan0 = (out2, log_call c (log_call (ChkList cp) scan0))"
    let ?st = "\<lparr>services = [], incomplete_warning = False, calls = [ChkList cp, c]\<rparr>"
    have s: "chkconfig_scan h sp cp scan0 = fold (chkconfig_line h sp) (split_chr nl out2) ?st"
      by (simp add: chkconfig_scan_unfold l log_call_twice)
    obtain probes where p:
      "calls (fold (chkconfig_line h sp) (split_chr nl out2) ?st) = calls ?st @ probes"
      "list_all (is_probe sp) probes"
      using fold_chkconfig_line_calls by blast
    have "trace (service_gather h) = ChkList cp # c # probes"
      by (simp add: g s finished_def p(1))
    with p(2) show "service_gather h = finished (fold (chkconfig_line h sp) (split_chr nl out2) ?st)
       \<and> (\<exists>probes. trace (service_gather h) = ChkList cp # c # probes
             \<and> list_all (is_probe sp) probes)"
      by (simp add: g s)
  qed
  show ?thesis
  proof (intro conjI impI)
    assume "\<exists>line \<in> set (split_chr nl out). re_match chkconfig_simple_re line \<noteq> None"
    from rerun [OF chkconfig_listing_all [OF base primary this]]
    show "service_gather h =
              finished (fold (chkconfig_line h sp)
                (split_chr nl (fst (snd (run_command h (cmd_of (ChkListAll cp))))))
                \<lparr>services = [], incomplete_warning = False,
                  calls = [ChkList cp, ChkListAll cp]\<rparr>)"
      and "\<exists>probes. trace (service_gather h) = ChkList cp # ChkListAll cp # probes
                  \<and> list_all (is_probe sp) probes"
      by blast+
  next
    assume a: "(\<forall>line \<in> set (split_chr nl out). re_match chkconfig_simple_re line = None)
              \<and> contains ''--list'' err"
    from rerun [OF chkconfig_listing_flag_rerun [OF base primary conjunct1 [OF a] conjunct2 [OF a]]]
    show "service_gather h =
              finished (fold (chkconfig_line h sp)
                (split_chr nl (fst (snd (run_command h (cmd_of (ChkListFlag cp))))))
                \<lparr>services = [], incomplete_warning = False,
                  calls = [ChkList cp, ChkListFlag cp]\<rparr>)"
      and "\<exists>probes. trace (service_gather h) = ChkList cp # ChkListFlag cp # probes
                  \<and> list_all (is_probe sp) probes"
      by blast+
  qed
qed

theorem chkconfig_fallback_chain_witness:
  "service_gather host_two_column =
     \<lparr>returned = Some [(Str ''cups'', [(''name'', Str ''cups''), (''state'', Str ''stopped''),
                                      (''source'', Str ''sysv'')])],
      incomplete = False,
      trace = [ChkList ''/sbin/chkconfig'', ChkListAll ''/sbin/chkconfig'']\<rparr>
   \<and> service_gather host_needs_list =
     \<lparr>returned = Some [(Str ''cups'', [(''name'', Str ''cups''), (''state'', Str ''stopped''),
                                      (''source'', Str ''sysv'')])],
      incomplete = False,
      trace = [ChkList ''/sbin/chkconfig'', ChkListFlag ''/sbin/chkconfig'']\<rparr>"
proof -
  have sp1: "get_bin_path host_two_column ''service'' [] = Some ''/sbin/service''"
    and cp1: "get_bin_path host_two_column ''chkconfig'' [] = Some ''/sbin/chkconfig''"
    and base1: "run_command host_two_column (cmd_of (ChkList ''/sbin/chkconfig''))
                  = (0, ''cups  off'', [])"
    by (simp_all add: host_two_column_def)
  have prim1: "\<forall>line \<in> set (split_chr nl ''cups  off''). re_match chkconfig_re line = None"
    by code_simp
  have simple1: "\<exists>line \<in> set (split_chr nl ''cups  off'').
                   re_match chkconfig_simple_re line \<noteq> None"
    by code_simp
  have ev1: "finished (fold (chkconfig_line host_two_column ''/sbin/service'')
        (split_chr nl (fst (snd (run_command host_two_column
            (cmd_of (ChkListAll ''/sbin/chkconfig''))))))
        \<lparr>services = [], incomplete_warning = False,
          calls = [ChkList ''/sbin/chkconfig'', ChkListAll ''/sbin/chkconfig'']\<rparr>)
      = \<lparr>returned = Some [(Str ''cups'', [(''name'', Str ''cups''), (''state'', Str ''stopped''),
                                      (''source'', Str ''sysv'')])],
      incomplete = False,
      trace = [ChkList ''/sbin/chkconfig'', ChkListAll ''/sbin/chkconfig'']\<rparr>"
    by code_simp
  have sp2: "get_bin_path host_needs_list ''service'' [] = Some ''/sbin/service''"
    and cp2: "get_bin_path host_needs_list ''chkconfig'' [] = Some ''/sbin/chkconfig''"
    and base2: "run_command host_needs_list (cmd_of (ChkList ''/sbin/chkconfig''))
                  = (2, [], ''usage:   chkconfig --list [name]'')"
    by (simp_all add: host_needs_list_def)
  have prim2: "\<forall>line \<in> set (split_chr nl []). re_match chkconfig_re line = None"
    by code_simp
  have simple2: "\<forall>line \<in> set (split_chr nl []). re_match chkconfig_simple_re line = None"
    by code_simp
  have usage: "contains ''--list'' ''usage:   chkconfig --list [name]''"
    by code_simp
  have ev2: "finished (fold (chkconfig_line host_needs_list ''/sbin/service'')
        (split_chr nl (fst (snd (run_command host_needs_list
            (cmd_of (ChkListFlag ''/sbin/chkconfig''))))))
        \<lparr>services = [], incomplete_warning = False,
          calls = [ChkList ''/sbin/chkconfig'', ChkListFlag ''/sbin/chkconfig'']\<rparr>)
      = \<lparr>returned = Some [(Str ''cups'', [(''name'', Str ''cups''), (''state'', Str ''stopped''),
                                      (''source'', Str ''sysv'')])],
      incomplete = False,
      trace = [ChkList ''/sbin/chkconfig'', ChkListFlag ''/sbin/chkconfig'']\<rparr>"
    by code_simp
  from chkconfig_fallback_chain [OF sp1 cp1 base1 prim1] simple1 ev1
  have "service_gather host_two_column =
     \<lparr>returned = Some [(Str ''cups'', [(''name'', Str ''cups''), (''state'', Str ''stopped''),
                                      (''source'', Str ''sysv'')])],
      incomplete = False,
      trace = [ChkList ''/sbin/chkconfig'', ChkListAll ''/sbin/chkconfig'']\<rparr>"
    by simp
  moreover
  from chkconfig_fallback_chain [OF sp2 cp2 base2 prim2] simple2 usage ev2
  have "service_gather host_needs_list =
     \<lparr>returned = Some [(Str ''cups'', [(''name'', Str ''cups''), (''state'', Str ''stopped''),
                                      (''source'', Str ''sysv'')])],
      incomplete = False,
      trace = [ChkList ''/sbin/chkconfig'', ChkListFlag ''/sbin/chkconfig'']\<rparr>"
    by simp
  ultimately show ?thesis by simp
qed

section \<open>Status probes without privileges\<close>

text \<open>
  Claim C4, as amended.  On a host with \<^verbatim>\<open>service\<close> and \<^verbatim>\<open>chkconfig\<close>, take a line of the
  final listing whose service's status probe exits non-zero with \<^verbatim>\<open>root\<close>,
  \<^verbatim>\<open>permission\<close> or \<^verbatim>\<open>not in sudoers\<close> (the last two in any case) on \<^verbatim>\<open>stderr\<close>, and a
  sibling line whose service's probe exits 0; let every listing line of these two names
  have runlevel 3 \<^verbatim>\<open>on\<close>, and let the systemd scanner return no record under either
  name.  Then the scanner's flag is set, its map has no record of the first service, and
  the report is a success that carries the warning, has no record of the first service
  and has the sibling as \<^verbatim>\<open>running\<close> from source \<^verbatim>\<open>sysv\<close>.
\<close>

theorem permission_denied_probe_skipped:
  assumes sp: "get_bin_path h ''service'' [] = Some sp"
    and cp: "get_bin_path h ''chkconfig'' [] = Some cp"
    and lines: "lines = split_chr nl (fst (chkconfig_listing h cp scan0))"
    and l1: "l1 \<in> set lines" "re_match chkconfig_re l1 = Some m1" "group m1 ''service'' = n1"
    and p1: "run_command h (cmd_of (SvcStatus sp n1)) = (rc1, out1, err1)" "rc1 \<noteq> 0"
      "contains ''root'' err1 \<or> contains ''permission'' (lower err1)
       \<or> contains ''not in sudoers'' (lower err1)"
    and only1: "\<forall>l \<in> set lines. \<forall>m. re_match chkconfig_re l = Some m \<and> group m ''service'' = n1
                   \<longrightarrow> group m ''rl3'' = Str ''on''"
    and l2: "l2 \<in> set lines" "re_match chkconfig_re l2 = Some m2" "group m2 ''service'' = n2"
    and p2: "run_command h (cmd_of (SvcStatus sp n2)) = (0, out2, err2)"
    and only2: "\<forall>l \<in> set lines. \<forall>m. re_match chkconfig_re l = Some m \<and> group m ''service'' = n2
                   \<longrightarrow> group m ''rl3'' = Str ''on''"
    and systemd: "map_of (contribution (systemctl_gather h)) n1 = None"
      "map_of (contribution (systemctl_gather h)) n2 = None"
  shows "incomplete (service_gather h)
         \<and> map_of (contribution (service_gather h)) n1 = None
         \<and> (\<exists>merged. main h = Facts merged
               (Some ''WARNING: Could not find status for all services. Sometimes this is due to insufficient privileges.'')
             \<and> map_of merged n1 = None
             \<and> map_of merged n2
                 = Some [(''name'', n2), (''state'', Str ''running''), (''source'', Str ''sysv'')])"
proof -
  let ?st = "snd (chkconfig_listing h cp scan0)"
  let ?fin = "fold (chkconfig_line h sp) lines ?st"
  let ?R = "[(''name'', n2), (''state'', Str ''running''), (''source'', Str ''sysv'')]"
  let ?m = "dict_ior (dict_ior [] (contribution (service_gather h)))
              (contribution (systemctl_gather h))"
  have g: "service_gather h = finished ?fin"
    by (simp add: service_gather_chkconfig [OF sp cp] chkconfig_scan_unfold lines)
  have c: "contribution (service_gather h) = services ?fin"
    and i: "incomplete (service_gather h) = incomplete_warning ?fin"
    by (simp_all add: g finished_def contribution_def)
  from only1 l1 have on1: "group m1 ''rl3'' = Str ''on''" by blast
  from p1(1) l1(3)
  have p1': "run_command h (cmd_of (SvcStatus sp (group m1 ''service''))) = (rc1, out1, err1)"
    by simp
  have flag: "incomplete_warning ?fin"
    by (rule fold_chkconfig_denied_flag [OF l1(1) l1(2) on1 p1' p1(2) p1(3)])
  have "map_of (services ?fin) n1 = map_of (services ?st) n1"
    by (rule fold_chkconfig_denied_absent [OF only1 p1])
  then have absent: "map_of (services ?fin) n1 = None" by simp
  from l2 have "\<exists>l \<in> set lines. \<exists>m. re_match chkconfig_re l = Some m \<and> group m ''service'' = n2"
    by blast
  then have "map_of (services ?st) n2 = Some ?R
      \<or> (\<exists>l \<in> set lines. \<exists>m. re_match chkconfig_re l = Some m \<and> group m ''service'' = n2)"
    by simp
  from fold_chkconfig_running [OF only2 this p2 refl]
  have present: "map_of (services ?fin) n2 = Some ?R" .
  have mm: "map_of ?m = map_of (services ?fin) ++ map_of (contribution (systemctl_gather h))"
    using merged_map [of h] by (simp only: c)
  have m1: "map_of ?m n1 = None"
    using absent systemd(1) by (simp add: mm map_add_def)
  have m2: "map_of ?m n2 = Some ?R"
    using present systemd(2) by (simp add: mm map_add_def)
  from m2 have ne: "?m \<noteq> []" by auto
  have w: "incomplete (service_gather h) \<or> incomplete (systemctl_gather h)"
    using flag i by simp
  have "main h = Facts ?m
     (Some ''WARNING: Could not find status for all services. Sometimes this is due to insufficient privileges.'')"
    using ne w by (simp only: main_unfold Let_def warn_flag if_False if_True)
  with m1 m2 flag i absent c show ?thesis by simp
qed

theorem permission_denied_probe_skipped_witness:
  "incomplete (service_gather host_chkconfig)
   \<and> map_of (contribution (service_gather host_chkconfig)) (Str ''ntpd'') = None
   \<and> (\<exists>merged. main host_chkconfig = Facts merged
         (Some ''WARNING: Could not find status for all services. Sometimes this is due to insufficient privileges.'')
       \<and> map_of merged (Str ''ntpd'') = None
       \<and> map_of merged (Str ''sshd'')
           = Some [(''name'', Str ''sshd''), (''state'', Str ''running''),
                   (''source'', Str ''sysv'')])"
proof -
  let ?sshd = "''sshd 0:off 1:off 2:on 3:on 4:on 5:on 6:off''"
  let ?ntpd = "''ntpd 0:off 1:off 2:on 3:on 4:on 5:on 6:off''"
  let ?cups = "''cups 0:off 1:off 2:off 3:off 4:off 5:off 6:off''"
  have sp: "get_bin_path host_chkconfig ''service'' [] = Some ''/sbin/service''"
    and cp: "get_bin_path host_chkconfig ''chkconfig'' [] = Some ''/sbin/chkconfig''"
    by (simp_all add: host_chkconfig_def)
  have lines: "[?sshd, ?ntpd, ?cups]
      = split_chr nl (fst (chkconfig_listing host_chkconfig ''/sbin/chkconfig'' scan0))"
    by (simp only: host_chkconfig_lines)
  have l1: "?ntpd \<in> set [?sshd, ?ntpd, ?cups]" and l2: "?sshd \<in> set [?sshd, ?ntpd, ?cups]"
    by simp_all
  have n1: "group [(''rl6'', ''off''), (''rl5'', ''on''), (''rl4'', ''on''), (''rl3'', ''on''),
             (''rl2'', ''on''), (''rl1'', ''off''), (''rl0'', ''off''), (''service'', ''ntpd'')]
             ''service'' = Str ''ntpd''"
    and n2: "group [(''rl6'', ''off''), (''rl5'', ''on''), (''rl4'', ''on''), (''rl3'', ''on''),
             (''rl2'', ''on''), (''rl1'', ''off''), (''rl0'', ''off''), (''service'', ''sshd'')]
             ''service'' = Str ''sshd''"
    by (simp_all add: group_def)
  have p1: "run_command host_chkconfig (cmd_of (SvcStatus ''/sbin/service'' (Str ''ntpd'')))
      = (1, [], ''Sorry, user scan is Not in sudoers'')"
    and p2: "run_command host_chkconfig (cmd_of (SvcStatus ''/sbin/service'' (Str ''sshd'')))
      = (0, ''sshd is running'', [])"
    by (simp_all add: host_chkconfig_def)
  have rc: "(1::int) \<noteq> 0" by simp
  have denied: "contains ''root'' ''Sorry, user scan is Not in sudoers''
      \<or> contains ''permission'' (lower ''Sorry, user scan is Not in sudoers'')
      \<or> contains ''not in sudoers'' (lower ''Sorry, user scan is Not in sudoers'')"
    by code_simp
  have only1: "\<forall>l \<in> set [?sshd, ?ntpd, ?cups]. \<forall>m.
      re_match chkconfig_re l = Some m \<and> group m ''service'' = Str ''ntpd''
        \<longrightarrow> group m ''rl3'' = Str ''on''"
    by (auto simp: host_chkconfig_matches group_def)
  have only2: "\<forall>l \<in> set [?sshd, ?ntpd, ?cups]. \<forall>m.
      re_match chkconfig_re l = Some m \<and> group m ''service'' = Str ''sshd''
        \<longrightarrow> group m ''rl3'' = Str ''on''"
    by (auto simp: host_chkconfig_matches group_def)
  have s: "map_of (contribution (systemctl_gather host_chkconfig)) (Str ''ntpd'') = None"
    "map_of (contribution (systemctl_gather host_chkconfig)) (Str ''sshd'') = None"
    by code_simp+
  show ?thesis
    by (rule permission_denied_probe_skipped
          [OF sp cp lines l1 host_chkconfig_matches(2) n1 p1 rc denied only1
              l2 host_chkconfig_matches(1) n2 p2 only2 s])
qed

text \<open>
  Claim C4 as stated fails where the systemd listing has a unit of the same name: the
  status probe of \<^verbatim>\<open>ntpd\<close> exits 1 with \<^verbatim>\<open>Not in sudoers\<close> on \<^verbatim>\<open>stderr\<close>, the chkconfig
  loop skips it, and the merge then stores the systemd scanner's record under \<^verbatim>\<open>ntpd\<close>,
  so the name is in the final map.
\<close>

theorem denied_service_in_final_map_counterexample:
  "re_match chkconfig_re ''ntpd 0:off 1:off 2:on 3:on 4:on 5:on 6:off''
     = Some [(''rl6'', ''off''), (''rl5'', ''on''), (''rl4'', ''on''), (''rl3'', ''on''),
             (''rl2'', ''on''), (''rl1'', ''off''), (''rl0'', ''off''), (''service'', ''ntpd'')]
   \<and> run_command host_chkconfig_systemd (cmd_of (SvcStatus ''/sbin/service'' (Str ''ntpd'')))
     = (1, [], ''Sorry, user scan is Not in sudoers'')
   \<and> contains ''not in sudoers'' (lower ''Sorry, user scan is Not in sudoers'')
   \<and> main host_chkconfig_systemd =
     Facts
       [(Str ''sshd'', [(''name'', Str ''sshd''), (''state'', Str ''running''),
                        (''source'', Str ''sysv'')]),
        (Str ''cups'', [(''name'', Str ''cups''), (''state'', Str ''stopped''),
                        (''source'', Str ''sysv'')]),
        (Str ''ntpd'', [(''name'', Str ''ntpd''), (''state'', Str ''running''),
                        (''source'', Str ''systemd'')])]
       (Some ''WARNING: Could not find status for all services. Sometimes this is due to insufficient privileges.'')"
  by code_simp

end
